theory Spec2Isabelle
  imports
    Complex_Main
    "HOL-Library.Sublist"
    "HOL-Library.Multiset"
    "HOL-Library.Char_ord"
    "HOL-Library.List_Lexorder"
begin

section \<open>Takeoff aggregation and workbook synthesis (src/components/ResultsView.tsx)\<close>

text \<open>
  A shallow embedding of the grouping, rebar aggregation, costing and workbook export
  code of \<^verbatim>\<open>ResultsView.tsx\<close>.

  Conventions of the embedding:
  \<^item> A JavaScript \<^verbatim>\<open>number\<close> is a \<^typ>\<open>real\<close>: arithmetic is exact, so every sum
    below is the sum "up to floating-point reassociation". The data carry no NaN and no
    infinity; the one NaN of the model is the product of a quantity and a rate that is
    not a number (\<open>jsnum\<close>).
  \<^item> A JavaScript string is a \<^typ>\<open>string\<close> of ASCII characters.
  \<^item> \<^verbatim>\<open>String.prototype.localeCompare\<close> depends on the host's collation, and the
    conversion of a fractional number to text on the host's number printer; both are
    parameters (\<open>cmp\<close>, \<open>numStr\<close>) of the functions that call them.
  \<^item> A plain object or \<^verbatim>\<open>Map\<close> whose iteration order is observed is an association
    list in insertion order. A plain object that is only read and written by name is the
    map of its own properties, read through \<open>objGet\<close> and written through \<open>objSet\<close>,
    which add what the object inherits from \<^verbatim>\<open>Object.prototype\<close>.
\<close>

subsection \<open>Data model (types.ts)\<close>

record takeoff_item =
  item_id :: string
  description :: string
  timesing :: real
  dimension :: string
  quantity :: real
  item_unit :: string
  category :: string
  confidence :: string

record rebar_item =
  rb_id :: string
  rb_member :: string
  barType :: string
  shapeCode :: string
  noOfMembers :: real
  barsPerMember :: real
  totalBars :: real
  lengthPerBar :: real
  totalLength :: real
  totalWeight :: real

record takeoff_result =
  projectName :: string
  items :: "takeoff_item list"
  rebarItems :: "rebar_item list option"
  summary :: string

text \<open>\<^verbatim>\<open>TakeoffItem & { axis: string }\<close>: the item's fields and the location label.\<close>

record member_item = takeoff_item +
  axis :: string

definition withAxis :: "takeoff_item \<Rightarrow> string \<Rightarrow> member_item" where
  "withAxis item a = takeoff_item.extend item (member_item.fields a)"

record grouped_item =
  g_name :: string
  g_unit :: string
  g_category :: string
  g_items :: "member_item list"
  g_totalQuantity :: real

record rebar_summary =
  r_name :: string
  r_totalQuantity :: real
  r_unit :: string

text \<open>
  A cell of an array-of-arrays row: a bare string, a bare number, or a cell object
  \<^verbatim>\<open>{ t: 'n', f?, v? }\<close> with an optional formula and an optional cached value.
  \<open>ObjProtoF m\<close> and \<open>ObjProtoV m\<close> are the cell objects \<^verbatim>\<open>{ t: 'n', f: o }\<close> and
  \<^verbatim>\<open>{ t: 'n', v: o }\<close> whose field holds, instead of a string or a number, the member
  \<open>o\<close> of \<^verbatim>\<open>Object.prototype\<close> named \<open>m\<close>.
\<close>

datatype cell =
  Str string | Num real | Obj (cell_f: "string option") (cell_v: "real option")
  | ObjProtoF string | ObjProtoV string

type_synonym row = "cell list"

subsection \<open>Strings\<close>

definition lowerChar :: "char \<Rightarrow> char" where
  "lowerChar c =
     (case map_of (zip ''ABCDEFGHIJKLMNOPQRSTUVWXYZ'' ''abcdefghijklmnopqrstuvwxyz'') c of
        Some l \<Rightarrow> l | None \<Rightarrow> c)"

definition upperChar :: "char \<Rightarrow> char" where
  "upperChar c =
     (case map_of (zip ''abcdefghijklmnopqrstuvwxyz'' ''ABCDEFGHIJKLMNOPQRSTUVWXYZ'') c of
        Some u \<Rightarrow> u | None \<Rightarrow> c)"

definition toLowerCase :: "string \<Rightarrow> string" where
  "toLowerCase s = map lowerChar s"

definition toUpperCase :: "string \<Rightarrow> string" where
  "toUpperCase s = map upperChar s"

text \<open>\<^verbatim>\<open>s.includes(t)\<close>: \<open>t\<close> occurs in \<open>s\<close> as a contiguous substring.\<close>

fun includesStr :: "string \<Rightarrow> string \<Rightarrow> bool" where
  "includesStr [] t = (t = [])"
| "includesStr (c # cs) t = (prefix t (c # cs) \<or> includesStr cs t)"

text \<open>\<^verbatim>\<open>parts.join(sep)\<close>.\<close>

fun joinStr :: "string \<Rightarrow> string list \<Rightarrow> string" where
  "joinStr sep [] = []"
| "joinStr sep [p] = p"
| "joinStr sep (p # q # ps) = p @ sep @ joinStr sep (q # ps)"

text \<open>
  \<^verbatim>\<open>s.split(sep)\<close> for a non-empty literal separator: the string is scanned from the
  left, every occurrence found closes the current segment and the scan resumes after it.
  \<open>cur\<close> is the segment being read.
\<close>

function splitFrom :: "string \<Rightarrow> string \<Rightarrow> string \<Rightarrow> string list" where
  "splitFrom sep cur [] = [cur]"
| "splitFrom sep cur (c # cs) =
     (if sep \<noteq> [] \<and> prefix sep (c # cs)
      then cur # splitFrom sep [] (drop (length sep) (c # cs))
      else splitFrom sep (cur @ [c]) cs)"
  by pat_completeness auto
termination
  by (relation "measure (\<lambda>(sep, cur, s). length s)") (auto simp: neq_Nil_conv)

definition splitStr :: "string \<Rightarrow> string \<Rightarrow> string list" where
  "splitStr sep s = splitFrom sep [] s"

text \<open>
  \<^verbatim>\<open>s.replace(pat, rep)\<close> with a string pattern: only the first occurrence is replaced.
  (The replacement strings of the source are empty, so no \<^verbatim>\<open>$\<close> pattern arises.)
\<close>

fun replaceFirst :: "string \<Rightarrow> string \<Rightarrow> string \<Rightarrow> string" where
  "replaceFirst pat rep [] = (if pat = [] then rep else [])"
| "replaceFirst pat rep (c # cs) =
     (if prefix pat (c # cs) then rep @ drop (length pat) (c # cs)
      else c # replaceFirst pat rep cs)"

text \<open>The decimal text of a non-negative integer, as \<^verbatim>\<open>`${n}`\<close> prints it.\<close>

fun decimal :: "nat \<Rightarrow> string" where
  "decimal n =
     (if n < 10 then [''0123456789'' ! n]
      else decimal (n div 10) @ [''0123456789'' ! (n mod 10)])"

declare decimal.simps [simp del]

text \<open>
  \<^verbatim>\<open>a || d\<close> on a possibly missing number: \<^verbatim>\<open>undefined\<close> and \<open>0\<close> are falsy.
\<close>

definition orDefault :: "real option \<Rightarrow> real \<Rightarrow> real" where
  "orDefault a d = (case a of None \<Rightarrow> d | Some v \<Rightarrow> if v = 0 then d else v)"

text \<open>
  A plain object \<^verbatim>\<open>{}\<close> used as a dictionary. Its own properties are a map. Reading
  \<^verbatim>\<open>obj[nm]\<close> gives the own property if there is one, else the member of
  \<^verbatim>\<open>Object.prototype\<close> of that name if there is one (a function, or for \<open>__proto__\<close>
  the prototype object itself: truthy, and not a number or a string), else
  \<^verbatim>\<open>undefined\<close>.
\<close>

definition objectPrototypeMembers :: "string list" where
  "objectPrototypeMembers =
     [''constructor'', ''__defineGetter__'', ''__defineSetter__'', ''hasOwnProperty'',
      ''__lookupGetter__'', ''__lookupSetter__'', ''isPrototypeOf'',
      ''propertyIsEnumerable'', ''toString'', ''valueOf'', ''__proto__'',
      ''toLocaleString'']"

datatype 'a jsval = Val 'a | Proto string

definition objGet :: "(string \<rightharpoonup> 'a) \<Rightarrow> string \<Rightarrow> 'a jsval option" where
  "objGet obj nm =
     (case obj nm of
        Some v \<Rightarrow> Some (Val v)
      | None \<Rightarrow> if nm \<in> set objectPrototypeMembers then Some (Proto nm) else None)"

text \<open>
  The assignment \<^verbatim>\<open>obj[nm] = v\<close> of a string or a number: it creates or updates the own
  property, except that for \<open>__proto__\<close> without an own property it runs the inherited
  setter, which ignores a value that is not an object.
\<close>

definition objSet :: "(string \<rightharpoonup> 'a) \<Rightarrow> string \<Rightarrow> 'a \<Rightarrow> (string \<rightharpoonup> 'a)" where
  "objSet obj nm v = (if nm = ''__proto__'' \<and> obj nm = None then obj else obj(nm \<mapsto> v))"

text \<open>
  \<^verbatim>\<open>obj[nm] || 0\<close> on a dictionary of numbers: \<^verbatim>\<open>undefined\<close> and \<open>0\<close> are falsy, an
  inherited member is truthy and is the result.
\<close>

definition orZero :: "real jsval option \<Rightarrow> real jsval" where
  "orZero a =
     (case a of
        None \<Rightarrow> Val 0
      | Some (Val v) \<Rightarrow> Val (if v = 0 then 0 else v)
      | Some (Proto m) \<Rightarrow> Proto m)"

text \<open>
  The result of arithmetic that may involve a value that is not a number: a number, or
  NaN. A quantity times a rate is NaN when the rate is an inherited member, and a sum
  with NaN is NaN.
\<close>

datatype jsnum = Finite real | NaN

definition timesRate :: "real \<Rightarrow> real jsval \<Rightarrow> jsnum" where
  "timesRate q rate = (case rate of Val v \<Rightarrow> Finite (q * v) | Proto m \<Rightarrow> NaN)"

definition plusNum :: "jsnum \<Rightarrow> jsnum \<Rightarrow> jsnum" where
  "plusNum a b =
     (case a of
        NaN \<Rightarrow> NaN
      | Finite x \<Rightarrow> (case b of NaN \<Rightarrow> NaN | Finite y \<Rightarrow> Finite (x + y)))"

text \<open>\<^verbatim>\<open>xs.indexOf(x)\<close>: the first index of \<open>x\<close>, or \<open>-1\<close>.\<close>

fun indexOf :: "'a list \<Rightarrow> 'a \<Rightarrow> int" where
  "indexOf [] x = - 1"
| "indexOf (y # ys) x =
     (if y = x then 0 else (let i = indexOf ys x in if i = - 1 then - 1 else i + 1))"

text \<open>
  \<^verbatim>\<open>xs.sort(compare)\<close>: the sort is stable, so for a consistent comparator its result is
  the one a stable insertion sort computes.
\<close>

fun insertBy :: "('a \<Rightarrow> 'a \<Rightarrow> int) \<Rightarrow> 'a \<Rightarrow> 'a list \<Rightarrow> 'a list" where
  "insertBy compare x [] = [x]"
| "insertBy compare x (y # ys) =
     (if compare x y \<le> 0 then x # y # ys else y # insertBy compare x ys)"

definition sortBy :: "('a \<Rightarrow> 'a \<Rightarrow> int) \<Rightarrow> 'a list \<Rightarrow> 'a list" where
  "sortBy compare xs = foldr (insertBy compare) xs []"

text \<open>
  What the language requires of a comparator for the result of \<^verbatim>\<open>sort\<close> to be defined:
  it is reflexive, its sign flips when the arguments are swapped, and it is transitive.
\<close>

definition consistentComparator :: "('a \<Rightarrow> 'a \<Rightarrow> int) \<Rightarrow> bool" where
  "consistentComparator compare =
     ((\<forall>a. compare a a = 0)
      \<and> (\<forall>a b. sgn (compare a b) = - sgn (compare b a))
      \<and> (\<forall>a b c. \<not> (compare a b \<le> 0 \<and> compare b c \<le> 0 \<and> 0 < compare a c)))"

text \<open>A comparison by character codes, one consistent stand-in for \<^verbatim>\<open>localeCompare\<close>.\<close>

definition codeCompare :: "string \<Rightarrow> string \<Rightarrow> int" where
  "codeCompare a b = (if a < b then - 1 else if a = b then 0 else 1)"

subsection \<open>Item classifier and grouping (groupedData)\<close>

definition CATEGORY_ORDER :: "string list" where
  "CATEGORY_ORDER =
     [''Sub Structure'', ''Super Structure'', ''Openings'', ''Finishing Works'',
      ''Painting'', ''Electrical'', ''Mechanical'', ''Sanitary'']"

text \<open>The description parsing of \<open>groupedData\<close>: the pair (groupName, axis).\<close>

definition classify :: "string \<Rightarrow> string \<times> string" where
  "classify descr =
     (let parts = splitStr '' - '' descr in
      if 3 \<le> length parts then
        (let popped = last parts;
             ax = (if popped = [] then ''General'' else popped)
         in (joinStr '' - '' (butlast parts), ax))
      else if length parts = 2 then (parts ! 0, parts ! 1)
      else (descr, ''General''))"

definition matchesSearch :: "string \<Rightarrow> takeoff_item \<Rightarrow> bool" where
  "matchesSearch searchTerm item =
     includesStr (toLowerCase (description item)) (toLowerCase searchTerm)"

definition matchesCategory :: "string \<Rightarrow> takeoff_item \<Rightarrow> bool" where
  "matchesCategory categoryFilter item =
     (categoryFilter = ''All'' \<or> category item = categoryFilter)"

definition groupKey :: "string \<Rightarrow> takeoff_item \<Rightarrow> string" where
  "groupKey groupName item = groupName @ ''|'' @ item_unit item @ ''|'' @ category item"

type_synonym groups = "(string \<times> grouped_item) list"

text \<open>
  \<^verbatim>\<open>groups[key].items.push(...); groups[key].totalQuantity += item.quantity\<close> on the
  entry stored under \<open>key\<close>.
\<close>

fun pushItem :: "string \<Rightarrow> member_item \<Rightarrow> groups \<Rightarrow> groups" where
  "pushItem key m [] = []"
| "pushItem key m ((k, g) # rest) =
     (if k = key
      then (k, g\<lparr>g_items := g_items g @ [m],
                 g_totalQuantity := g_totalQuantity g + quantity m\<rparr>) # rest
      else (k, g) # pushItem key m rest)"

text \<open>
  The body of \<^verbatim>\<open>data.items.forEach\<close>. Every key holds two \<open>|\<close>, so it is neither a
  property inherited by the plain object \<open>groups\<close> nor an array index: \<^verbatim>\<open>!groups[key]\<close>
  tests whether the key is new, and the keys are enumerated in insertion order.
\<close>

definition addItem :: "string \<Rightarrow> string \<Rightarrow> groups \<Rightarrow> takeoff_item \<Rightarrow> groups" where
  "addItem searchTerm categoryFilter grps item =
     (if matchesSearch searchTerm item \<and> matchesCategory categoryFilter item then
        (let groupName = fst (classify (description item));
             ax = snd (classify (description item));
             key = groupKey groupName item;
             grps' = (if map_of grps key = None
                      then grps @ [(key, \<lparr>g_name = groupName, g_unit = item_unit item,
                                           g_category = category item, g_items = [],
                                           g_totalQuantity = 0\<rparr>)]
                      else grps)
         in pushItem key (withAxis item ax) grps')
      else grps)"

text \<open>\<^verbatim>\<open>Object.values(groups)\<close> after the loop: the groups in order of first encounter.\<close>

definition collectGroups :: "takeoff_item list \<Rightarrow> string \<Rightarrow> string \<Rightarrow> grouped_item list" where
  "collectGroups its searchTerm categoryFilter =
     map snd (foldl (addItem searchTerm categoryFilter) [] its)"

definition compareGroups :: "(string \<Rightarrow> string \<Rightarrow> int) \<Rightarrow> grouped_item \<Rightarrow> grouped_item \<Rightarrow> int" where
  "compareGroups cmp a b =
     (let idxA = indexOf CATEGORY_ORDER (g_category a);
          idxB = indexOf CATEGORY_ORDER (g_category b)
      in if idxA \<noteq> idxB then
           (let sortA = (if idxA = - 1 then 999 else idxA);
                sortB = (if idxB = - 1 then 999 else idxB)
            in sortA - sortB)
         else cmp (g_name a) (g_name b))"

definition groupedData ::
  "(string \<Rightarrow> string \<Rightarrow> int) \<Rightarrow> takeoff_result \<Rightarrow> string \<Rightarrow> string \<Rightarrow> grouped_item list" where
  "groupedData cmp data searchTerm categoryFilter =
     sortBy (compareGroups cmp) (collectGroups (items data) searchTerm categoryFilter)"

subsection \<open>Rebar aggregation (rebarSummary)\<close>

definition rebarItemsOrEmpty :: "takeoff_result \<Rightarrow> rebar_item list" where
  "rebarItemsOrEmpty data = (case rebarItems data of None \<Rightarrow> [] | Some rs \<Rightarrow> rs)"

text \<open>\<^verbatim>\<open>Map.prototype.set\<close>: an existing key keeps its place, a new key goes last.\<close>

fun mapSet :: "'k \<Rightarrow> 'v \<Rightarrow> ('k \<times> 'v) list \<Rightarrow> ('k \<times> 'v) list" where
  "mapSet k v [] = [(k, v)]"
| "mapSet k v ((k', v') # rest) =
     (if k' = k then (k', v) # rest else (k', v') # mapSet k v rest)"

definition summaryStep :: "(string \<times> real) list \<Rightarrow> rebar_item \<Rightarrow> (string \<times> real) list" where
  "summaryStep summaryMap item =
     (let currentWeight = orDefault (map_of summaryMap (barType item)) 0
      in mapSet (barType item) (currentWeight + totalWeight item) summaryMap)"

definition displayName :: "string \<Rightarrow> string" where
  "displayName ty = ''Reinforcement Bars (Type '' @ ty @ '')''"

definition toSummary :: "string \<times> real \<Rightarrow> rebar_summary" where
  "toSummary e = \<lparr>r_name = displayName (fst e), r_totalQuantity = snd e, r_unit = ''kg''\<rparr>"

definition rebarSummary :: "(string \<Rightarrow> string \<Rightarrow> int) \<Rightarrow> takeoff_result \<Rightarrow> rebar_summary list" where
  "rebarSummary cmp data =
     sortBy (\<lambda>a b. cmp (r_name a) (r_name b))
       (map toSummary (foldl summaryStep [] (rebarItemsOrEmpty data)))"

subsection \<open>Grand total (grandTotalCost)\<close>

text \<open>
  The unit prices are a plain object (\<^verbatim>\<open>useState<Record<string, number>>({})\<close>), every
  price being stored as an own property (\<^verbatim>\<open>{ ...prev, [name]: value }\<close>):
  \<open>unitPrices nm\<close> is the price stored under the name \<open>nm\<close>, if any, and the object is
  read through \<open>objGet\<close>.
\<close>

definition grandTotalCost ::
  "grouped_item list \<Rightarrow> rebar_summary list \<Rightarrow> (string \<rightharpoonup> real) \<Rightarrow> jsnum" where
  "grandTotalCost grouped rebar unitPrices =
     (let total = foldl (\<lambda>total grp.
                    plusNum total
                      (timesRate (g_totalQuantity grp) (orZero (objGet unitPrices (g_name grp)))))
                  (Finite 0) grouped
      in foldl (\<lambda>total grp.
            plusNum total
              (timesRate (r_totalQuantity grp) (orZero (objGet unitPrices (r_name grp)))))
          total rebar)"

subsection \<open>Dimension formula (handleExport, formula sanitization)\<close>

definition isDigit :: "char \<Rightarrow> bool" where
  "isDigit c = (c \<in> set ''0123456789'')"

definition isSign :: "char \<Rightarrow> bool" where
  "isSign c = (c = CHR ''+'' \<or> c = CHR ''-'')"

text \<open>
  \<^verbatim>\<open>item.dimension.split(/[xX*]/)\<close>: every \<open>x\<close>, \<open>X\<close> or \<open>*\<close> closes the current
  segment.
\<close>

fun splitDimFrom :: "string \<Rightarrow> string \<Rightarrow> string list" where
  "splitDimFrom cur [] = [cur]"
| "splitDimFrom cur (c # cs) =
     (if c \<in> set ''xX*'' then cur # splitDimFrom [] cs else splitDimFrom (cur @ [c]) cs)"

definition splitDim :: "string \<Rightarrow> string list" where
  "splitDim s = splitDimFrom [] s"

text \<open>
  The pattern \<^verbatim>\<open>/[+-]?([0-9]*[.])?[0-9]+/\<close> as the backtracking matcher runs it.

  \<open>matchUnsigned\<close> is \<^verbatim>\<open>([0-9]*[.])?[0-9]+\<close> anchored at the head of the string: the
  optional group is tried first and takes the longest run of digits and the point, and
  succeeds when at least one digit follows; otherwise the group is skipped and the
  longest non-empty run of digits is the match.
\<close>

definition matchUnsigned :: "string \<Rightarrow> string option" where
  "matchUnsigned s =
     (let intPart = takeWhile isDigit s;
          rest = dropWhile isDigit s;
          fracPart = takeWhile isDigit (tl rest)
      in if rest \<noteq> [] \<and> hd rest = CHR ''.'' \<and> fracPart \<noteq> []
         then Some (intPart @ ''.'' @ fracPart)
         else if intPart \<noteq> [] then Some intPart
         else None)"

text \<open>
  The whole pattern anchored at the head of the string: the optional sign is taken first,
  and given back if the rest does not match after it.
\<close>

definition matchHere :: "string \<Rightarrow> string option" where
  "matchHere s =
     (case (if s \<noteq> [] \<and> isSign (hd s) then matchUnsigned (tl s) else None) of
        Some m \<Rightarrow> Some (hd s # m)
      | None \<Rightarrow> matchUnsigned s)"

text \<open>\<^verbatim>\<open>part.match(pattern)\<close>: the match at the leftmost position that has one.\<close>

fun firstMatch :: "string \<Rightarrow> string option" where
  "firstMatch [] = matchHere []"
| "firstMatch (c # cs) =
     (case matchHere (c # cs) of Some m \<Rightarrow> Some m | None \<Rightarrow> firstMatch cs)"

text \<open>
  The language of the pattern, for stating what a numeric token is: an optional sign,
  then either digits, or optional digits, a point and digits.
\<close>

definition unsignedToken :: "string \<Rightarrow> bool" where
  "unsignedToken u =
     (let rest = dropWhile isDigit u
      in (rest = [] \<and> u \<noteq> [])
         \<or> (rest \<noteq> [] \<and> hd rest = CHR ''.'' \<and> tl rest \<noteq> [] \<and> list_all isDigit (tl rest)))"

definition numericToken :: "string \<Rightarrow> bool" where
  "numericToken w =
     (if w \<noteq> [] \<and> isSign (hd w) then unsignedToken (tl w) else unsignedToken w)"

text \<open>The loop \<^verbatim>\<open>for (const part of rawParts)\<close> that fills \<open>sanitizedParts\<close>.\<close>

fun sanitizeLoop :: "string list \<Rightarrow> string list \<Rightarrow> string list" where
  "sanitizeLoop sanitizedParts [] = sanitizedParts"
| "sanitizeLoop sanitizedParts (part # rawParts) =
     (case firstMatch part of
        Some m \<Rightarrow> sanitizeLoop (sanitizedParts @ [m]) rawParts
      | None \<Rightarrow> sanitizeLoop sanitizedParts rawParts)"

definition sanitizedPartsOf :: "string \<Rightarrow> string list" where
  "sanitizedPartsOf expr = sanitizeLoop [] (splitDim expr)"

text \<open>
  The quantity cell of an item's value row, from the item's multiplier, dimension text
  and precomputed quantity.
\<close>

definition quantityCell :: "(real \<Rightarrow> string) \<Rightarrow> real \<Rightarrow> string \<Rightarrow> real \<Rightarrow> cell" where
  "quantityCell numStr tms expr qty =
     (let sanitizedParts = sanitizedPartsOf expr;
          isValidCalc = (0 < length sanitizedParts)
      in if isValidCalc then
           (let timesingVal = orDefault (Some tms) 1;
                timesingStr = (if timesingVal \<noteq> 1 then numStr timesingVal @ ''*'' else []);
                formulaStr = timesingStr @ joinStr ''*'' sanitizedParts
            in Obj (Some formulaStr) (Some qty))
         else Obj None (Some qty))"

subsection \<open>Workbook export (handleExport)\<close>

text \<open>
  \<^verbatim>\<open>XLSX.utils.encode_cell({r, c})\<close> of the spreadsheet library: the column in letters
  (A, B, ..., Z, AA, ...) followed by the one-based row number.
\<close>

function encodeColLoop :: "nat \<Rightarrow> string \<Rightarrow> string" where
  "encodeColLoop col s =
     (if col = 0 then s
      else encodeColLoop ((col - 1) div 26)
             ((''ABCDEFGHIJKLMNOPQRSTUVWXYZ'' ! ((col - 1) mod 26)) # s))"
  by pat_completeness auto
termination
  by (relation "measure (\<lambda>(col, s). col)") auto

declare encodeColLoop.simps [simp del]

definition encode_cell :: "nat \<Rightarrow> nat \<Rightarrow> string" where
  "encode_cell r c = encodeColLoop (c + 1) [] @ decimal (r + 1)"

text \<open>
  The state of the first loop. \<open>groupAddressMap\<close> is a plain object
  (\<^verbatim>\<open>const groupAddressMap: Record<string, string> = {}\<close>): the field holds its own
  properties.
\<close>

record dim_state =
  dimRows :: "row list"
  groupAddressMap :: "string \<rightharpoonup> string"
  lastCat :: string
  currentRowIdx :: nat

definition pushRow :: "row \<Rightarrow> dim_state \<Rightarrow> dim_state" where
  "pushRow r st = st\<lparr>dimRows := dimRows st @ [r]\<rparr>"

definition incRowIdx :: "dim_state \<Rightarrow> dim_state" where
  "incRowIdx st = st\<lparr>currentRowIdx := currentRowIdx st + 1\<rparr>"

text \<open>The state before the loop: the header row is row 0.\<close>

definition initialDimState :: dim_state where
  "initialDimState =
     \<lparr>dimRows = [[Str ''Timesing'', Str ''Description'', Str ''Dimension'', Str ''Quantity'']],
      groupAddressMap = Map.empty, lastCat = [], currentRowIdx = 1\<rparr>"

text \<open>The body of \<^verbatim>\<open>group.items.forEach\<close>: the logic row and the value row.\<close>

definition emitItem :: "(real \<Rightarrow> string) \<Rightarrow> dim_state \<Rightarrow> member_item \<Rightarrow> dim_state" where
  "emitItem numStr st item =
     (let st1 = incRowIdx (pushRow
                  [Num (if 1 < timesing item then timesing item else 1),
                   Str (axis item), Str (dimension item), Str []] st);
          qc = quantityCell numStr (timesing item) (dimension item) (quantity item)
      in incRowIdx (pushRow [Str [], Str [], Str [], qc] st1))"

definition subtotalRow :: "grouped_item \<Rightarrow> row" where
  "subtotalRow grp =
     [Str [], Str ''SUBTOTAL'', Str [], Obj None (Some (g_totalQuantity grp))]"

definition sheetRef :: "nat \<Rightarrow> string" where
  "sheetRef r = [CHR 0x27] @ ''Dim Sheet'' @ [CHR 0x27] @ ''!'' @ encode_cell r 3"

text \<open>The body of the first \<^verbatim>\<open>groupedData.forEach\<close>.\<close>

definition emitGroup :: "(real \<Rightarrow> string) \<Rightarrow> dim_state \<Rightarrow> grouped_item \<Rightarrow> dim_state" where
  "emitGroup numStr st grp =
     (let st1 = (if g_category grp \<noteq> lastCat st
                 then incRowIdx
                        ((pushRow [Str [], Str (toUpperCase (g_category grp)), Str [], Str []] st)
                           \<lparr>lastCat := g_category grp\<rparr>)
                 else st);
          st2 = incRowIdx (pushRow [Str [], Str (g_name grp), Str [], Str []] st1);
          st3 = foldl (emitItem numStr) st2 (g_items grp);
          st4 = pushRow (subtotalRow grp) st3;
          st5 = st4\<lparr>groupAddressMap :=
                      objSet (groupAddressMap st4) (g_name grp) (sheetRef (currentRowIdx st4))\<rparr>;
          st6 = incRowIdx st5
      in incRowIdx (pushRow [] st6))"

definition emitDimSheet :: "(real \<Rightarrow> string) \<Rightarrow> grouped_item list \<Rightarrow> dim_state" where
  "emitDimSheet numStr grouped = foldl (emitGroup numStr) initialDimState grouped"

definition rebarHeaders :: row where
  "rebarHeaders =
     map Str [''Member'', ''Bar Mark'', ''Type/Size'', ''Shape Code'', ''No. Members'',
              ''Bars/Member'', ''Total Bars'', ''Length (m)'', ''Total Length (m)'',
              ''Total Weight (kg)'']"

definition rebarRow :: "rebar_item \<Rightarrow> row" where
  "rebarRow item =
     [Str (rb_member item), Str (rb_id item), Str (barType item), Str (shapeCode item),
      Num (noOfMembers item), Num (barsPerMember item), Num (totalBars item),
      Num (lengthPerBar item), Num (totalLength item), Num (totalWeight item)]"

definition rebarRows :: "takeoff_result \<Rightarrow> row list" where
  "rebarRows data = rebarHeaders # map rebarRow (rebarItemsOrEmpty data)"

definition createFormulaCell :: "string \<Rightarrow> cell" where
  "createFormulaCell f = Obj (Some f) None"

definition createNumberCell :: "real \<Rightarrow> cell" where
  "createNumberCell v = Obj None (Some v)"

record boq_state =
  boqRows :: "row list"
  boqRowIndex :: nat

definition amountFormula :: "nat \<Rightarrow> string" where
  "amountFormula excelRow = ''C'' @ decimal excelRow @ ''*D'' @ decimal excelRow"

text \<open>The quantity cell of a group's BOQ row: the recorded reference, if there is one.\<close>

definition boqQtyCell :: "(string \<rightharpoonup> string) \<Rightarrow> grouped_item \<Rightarrow> cell" where
  "boqQtyCell addressMap grp =
     (case objGet addressMap (g_name grp) of
        Some (Val qtyRef) \<Rightarrow>
          if qtyRef \<noteq> [] then createFormulaCell qtyRef
          else createNumberCell (g_totalQuantity grp)
      | Some (Proto m) \<Rightarrow> ObjProtoF m
      | None \<Rightarrow> createNumberCell (g_totalQuantity grp))"

text \<open>\<^verbatim>\<open>createNumberCell(rate)\<close> for a rate read from the unit prices.\<close>

definition rateCell :: "real jsval \<Rightarrow> cell" where
  "rateCell rate = (case rate of Val v \<Rightarrow> createNumberCell v | Proto m \<Rightarrow> ObjProtoV m)"

text \<open>The body of the second \<^verbatim>\<open>groupedData.forEach\<close>.\<close>

definition boqGroupRow ::
  "(string \<rightharpoonup> string) \<Rightarrow> (string \<rightharpoonup> real) \<Rightarrow> boq_state \<Rightarrow> grouped_item \<Rightarrow> boq_state" where
  "boqGroupRow addressMap unitPrices st grp =
     (let rate = orZero (objGet unitPrices (g_name grp));
          qtyCell = boqQtyCell addressMap grp;
          excelRow = boqRowIndex st + 1
      in \<lparr>boqRows = boqRows st @
             [[Str (g_name grp), Str (g_unit grp), qtyCell, rateCell rate,
               createFormulaCell (amountFormula excelRow)]],
          boqRowIndex = boqRowIndex st + 1\<rparr>)"

text \<open>The bar type recovered from a summary's display name.\<close>

definition extractBarType :: "string \<Rightarrow> string" where
  "extractBarType nm =
     replaceFirst '')'' [] (replaceFirst ''Reinforcement Bars (Type '' [] nm)"

definition sumIfFormula :: "string \<Rightarrow> string" where
  "sumIfFormula ty =
     ''SUMIF('Rebar Schedule'!C:C, '' @ [CHR 0x22] @ ty @ [CHR 0x22]
       @ '', 'Rebar Schedule'!J:J)''"

text \<open>The body of \<^verbatim>\<open>rebarSummary.forEach\<close> in the export.\<close>

definition boqRebarRow :: "(string \<rightharpoonup> real) \<Rightarrow> boq_state \<Rightarrow> rebar_summary \<Rightarrow> boq_state" where
  "boqRebarRow unitPrices st r =
     (let rate = orZero (objGet unitPrices (r_name r));
          ty = extractBarType (r_name r);
          excelRow = boqRowIndex st + 1
      in \<lparr>boqRows = boqRows st @
             [[Str (r_name r), Str (r_unit r), createFormulaCell (sumIfFormula ty),
               rateCell rate, createFormulaCell (amountFormula excelRow)]],
          boqRowIndex = boqRowIndex st + 1\<rparr>)"

definition boqHeader :: row where
  "boqHeader =
     map Str [''Item Description'', ''Unit'', ''Total Quantity'', ''Unit Rate'', ''Total Amount'']"

definition emitBoq ::
  "(string \<rightharpoonup> string) \<Rightarrow> grouped_item list \<Rightarrow> rebar_summary list \<Rightarrow> (string \<rightharpoonup> real)
     \<Rightarrow> row list" where
  "emitBoq addressMap grouped rebar unitPrices =
     (let st0 = \<lparr>boqRows = [boqHeader], boqRowIndex = 1\<rparr>;
          st1 = foldl (boqGroupRow addressMap unitPrices) st0 grouped;
          st2 = (if 0 < length rebar then
                   foldl (boqRebarRow unitPrices)
                     \<lparr>boqRows = boqRows st1 @
                        [[Str [], Str [], Str [], Str [], Str []],
                         [Str ''REBAR SUMMARY'', Str [], Str [], Str [], Str []]],
                      boqRowIndex = boqRowIndex st1 + 2\<rparr>
                     rebar
                 else st1)
      in boqRows st2 @
           [[Str [], Str [], Str [], Str [], Str []],
            [Str ''GRAND TOTAL'', Str [], Str [], Str [],
             Obj (Some (''SUM(E2:E'' @ decimal (boqRowIndex st2) @ '')'')) None]])"

text \<open>
  The workbook: the sheets in the order they are appended, each with its name and rows.
  The data, the grouped data, the rebar summary and the prices are what the closure
  reads.
\<close>

definition handleExport ::
  "(real \<Rightarrow> string) \<Rightarrow> takeoff_result \<Rightarrow> grouped_item list \<Rightarrow> rebar_summary list
     \<Rightarrow> (string \<rightharpoonup> real) \<Rightarrow> (string \<times> row list) list" where
  "handleExport numStr data grouped rebar unitPrices =
     (let dimSt = emitDimSheet numStr grouped
      in [(''Dim Sheet'', dimRows dimSt),
          (''Rebar Schedule'', rebarRows data),
          (''Bill of Quantities'',
             emitBoq (groupAddressMap dimSt) grouped rebar unitPrices)])"

subsection \<open>The component body (ResultsView)\<close>

text \<open>The rebar records shown on screen: those that match the search term.\<close>

definition filteredRebar :: "takeoff_result \<Rightarrow> string \<Rightarrow> rebar_item list" where
  "filteredRebar data searchTerm =
     filter (\<lambda>item.
        (let lowerSearch = toLowerCase searchTerm
         in includesStr (toLowerCase (rb_member item)) lowerSearch
            \<or> includesStr (toLowerCase (rb_id item)) lowerSearch
            \<or> includesStr (toLowerCase (barType item)) lowerSearch))
       (rebarItemsOrEmpty data)"

text \<open>
  The values one render of the component derives from the data and its state (search
  term, category filter, unit prices).
\<close>

record view =
  v_groupedData :: "grouped_item list"
  v_filteredRebar :: "rebar_item list"
  v_rebarSummary :: "rebar_summary list"
  v_grandTotalCost :: jsnum

definition render ::
  "(string \<Rightarrow> string \<Rightarrow> int) \<Rightarrow> takeoff_result \<Rightarrow> string \<Rightarrow> string \<Rightarrow> (string \<rightharpoonup> real)
     \<Rightarrow> view" where
  "render cmp data searchTerm categoryFilter unitPrices =
     \<lparr>v_groupedData = groupedData cmp data searchTerm categoryFilter,
      v_filteredRebar = filteredRebar data searchTerm,
      v_rebarSummary = rebarSummary cmp data,
      v_grandTotalCost =
        grandTotalCost (groupedData cmp data searchTerm categoryFilter)
          (rebarSummary cmp data) unitPrices\<rparr>"

text \<open>The export triggered in that render.\<close>

definition synthesizeWorkbook ::
  "(string \<Rightarrow> string \<Rightarrow> int) \<Rightarrow> (real \<Rightarrow> string) \<Rightarrow> takeoff_result \<Rightarrow> string \<Rightarrow> string
     \<Rightarrow> (string \<rightharpoonup> real) \<Rightarrow> (string \<times> row list) list" where
  "synthesizeWorkbook cmp numStr data searchTerm categoryFilter unitPrices =
     (let v = render cmp data searchTerm categoryFilter unitPrices
      in handleExport numStr data (v_groupedData v) (v_rebarSummary v) unitPrices)"

subsection \<open>Predicates and sample inputs for the properties\<close>

text \<open>An item passes when both tests of the \<^verbatim>\<open>if\<close> in \<open>groupedData\<close> pass.\<close>

definition passes :: "string \<Rightarrow> string \<Rightarrow> takeoff_item \<Rightarrow> bool" where
  "passes searchTerm categoryFilter item =
     (matchesSearch searchTerm item \<and> matchesCategory categoryFilter item)"

definition totalIsSum :: "grouped_item \<Rightarrow> bool" where
  "totalIsSum g = (g_totalQuantity g = sum_list (map quantity (g_items g)))"

text \<open>The member an item becomes in its group: the item with its location label.\<close>

definition memberOf :: "takeoff_item \<Rightarrow> member_item" where
  "memberOf item = withAxis item (snd (classify (description item)))"

text \<open>
  The priority of a group's category: its position in the canonical table, and 999 for
  a category that is not in the table.
\<close>

definition catRank :: "grouped_item \<Rightarrow> int" where
  "catRank g =
     (if g_category g \<in> set CATEGORY_ORDER then indexOf CATEGORY_ORDER (g_category g)
      else 999)"

text \<open>The price a display name contributes: 0 when the price map has no entry for it.\<close>

definition priceOf :: "(string \<rightharpoonup> real) \<Rightarrow> string \<Rightarrow> real" where
  "priceOf unitPrices nm = (case unitPrices nm of None \<Rightarrow> 0 | Some p \<Rightarrow> p)"

definition mkItem ::
  "string \<Rightarrow> real \<Rightarrow> string \<Rightarrow> real \<Rightarrow> string \<Rightarrow> string \<Rightarrow> takeoff_item" where
  "mkItem d t e q u c =
     \<lparr>item_id = ''i'', description = d, timesing = t, dimension = e, quantity = q,
      item_unit = u, category = c, confidence = ''High''\<rparr>"

definition mkRebar :: "string \<Rightarrow> string \<Rightarrow> string \<Rightarrow> real \<Rightarrow> rebar_item" where
  "mkRebar mark mem ty w =
     \<lparr>rb_id = mark, rb_member = mem, barType = ty, shapeCode = ''00'', noOfMembers = 1,
      barsPerMember = 4, totalBars = 4, lengthPerBar = 6, totalLength = 24, totalWeight = w\<rparr>"

definition exampleData :: takeoff_result where
  "exampleData =
     \<lparr>projectName = ''Villa'',
      items =
        [mkItem ''Wall Paint - Room 1'' 1 ''-'' 5 ''m2'' ''Painting'',
         mkItem ''Beam - C30 - Grid A'' 1 ''15.00 x 0.60 x 1.20'' 10.8 ''m3'' ''Sub Structure'',
         mkItem ''Zinc Flashing'' 1 ''12'' 12 ''m'' ''Roofing'',
         mkItem ''Beam - C30 - Grid B'' 2 ''10.00 x 0.60 x 1.20'' 14.4 ''m3'' ''Sub Structure'',
         mkItem ''Asphalt'' 1 ''30 x 4'' 120 ''m2'' ''Landscaping''],
      rebarItems =
        Some [mkRebar ''01'' ''Beam A'' ''Y16'' 38, mkRebar ''02'' ''Beam A'' ''R8'' 9.5,
              mkRebar ''03'' ''Column C1'' ''Y16'' 12],
      summary = ''Sample takeoff''\<rparr>"

text \<open>The total weight of the records of one bar type, and the summary expected for it.\<close>

definition weightFor :: "rebar_item list \<Rightarrow> string \<Rightarrow> real" where
  "weightFor rs ty = sum_list (map totalWeight (filter (\<lambda>r. barType r = ty) rs))"

definition summaryFor :: "rebar_item list \<Rightarrow> string \<Rightarrow> rebar_summary" where
  "summaryFor rs ty =
     \<lparr>r_name = ''Reinforcement Bars (Type '' @ ty @ '')'',
      r_totalQuantity = weightFor rs ty, r_unit = ''kg''\<rparr>"

text \<open>A number printer for the sample inputs: the decimal text of a whole number.\<close>

definition wholeStr :: "real \<Rightarrow> string" where
  "wholeStr x = decimal (nat \<lfloor>x\<rfloor>)"

text \<open>
  Batches with one item whose description, and so its group name, is the name of a
  member of \<^verbatim>\<open>Object.prototype\<close>.
\<close>

definition constructorData :: takeoff_result where
  "constructorData =
     \<lparr>projectName = ''Villa'',
      items = [mkItem ''constructor'' 1 ''2 x 5'' 10 ''m2'' ''Finishing Works''],
      rebarItems = None, summary = ''Sample takeoff''\<rparr>"

definition protoData :: takeoff_result where
  "protoData =
     \<lparr>projectName = ''Villa'',
      items = [mkItem ''__proto__ - Grid A'' 1 ''2 x 2'' 4 ''m2'' ''Finishing Works''],
      rebarItems = None, summary = ''Sample takeoff''\<rparr>"

text \<open>A batch with one rebar record whose bar type has a parenthesis inside.\<close>

definition barTypeData :: takeoff_result where
  "barTypeData =
     \<lparr>projectName = ''Villa'', items = [],
      rebarItems = Some [mkRebar ''01'' ''Beam A'' ''Y12 (T) @ 150'' 38],
      summary = ''Sample rebar''\<rparr>"

text \<open>
  The physical row index at which the subtotal row of the \<open>j\<close>-th group is pushed: when
  the emission of that group ends, the subtotal row and the spacer row are the last two
  rows of the sheet.
\<close>

definition subtotalIndex :: "(real \<Rightarrow> string) \<Rightarrow> grouped_item list \<Rightarrow> nat \<Rightarrow> nat" where
  "subtotalIndex numStr grouped j =
     length (dimRows (emitDimSheet numStr (take (Suc j) grouped))) - 2"

subsection \<open>Auxiliary notions of the proofs\<close>

definition groupTotals :: "groups \<Rightarrow> real" where
  "groupTotals grps = sum_list (map (\<lambda>e. g_totalQuantity (snd e)) grps)"

definition groupMembers :: "groups \<Rightarrow> member_item multiset" where
  "groupMembers grps = mset (concat (map (\<lambda>e. g_items (snd e)) grps))"

text \<open>
  The invariant of the aggregation loop: after the records \<open>seen\<close>, the map has one
  entry per bar type seen, holding the total weight of the records of that type.
\<close>

definition summaryInv :: "(string \<times> real) list \<Rightarrow> rebar_item list \<Rightarrow> bool" where
  "summaryInv m seen =
     (distinct (map fst m) \<and> fst ` set m = barType ` set seen
      \<and> list_all (\<lambda>e. snd e = weightFor seen (fst e)) m)"

text \<open>
  The invariant of the first loop: the row counter is the number of rows pushed, and
  the address map has no own property \<open>__proto__\<close>.
\<close>

definition rowsInv :: "dim_state \<Rightarrow> bool" where
  "rowsInv st =
     (currentRowIdx st = length (dimRows st) \<and> groupAddressMap st ''__proto__'' = None)"

section \<open>Properties\<close>

subsection \<open>Splitting and joining\<close>

lemma splitFrom_not_Nil: "splitFrom sep cur s \<noteq> []"
  by (induction sep cur s rule: splitFrom.induct) auto

lemma joinStr_Cons: "joinStr sep (p # ps) = (if ps = [] then p else p @ sep @ joinStr sep ps)"
  by (cases ps) auto

lemma joinStr_splitFrom: "joinStr sep (splitFrom sep cur s) = cur @ s"
proof (induction sep cur s rule: splitFrom.induct)
  case (1 sep cur)
  then show ?case by simp
next
  case (2 sep cur c cs)
  show ?case
  proof (cases "sep \<noteq> [] \<and> prefix sep (c # cs)")
    case True
    then have "c # cs = sep @ drop (length sep) (c # cs)"
      by (metis append_eq_conv_conj prefix_def)
    with True 2 show ?thesis
      by (simp add: joinStr_Cons splitFrom_not_Nil)
  next
    case False
    with 2 show ?thesis by auto
  qed
qed

lemma includesStr_iff: "includesStr s t \<longleftrightarrow> sublist t s"
  by (induction s) (auto simp: sublist_Cons_right)

lemma splitFrom_single:
  "sep \<noteq> [] \<Longrightarrow> length (splitFrom sep cur s) = 1 \<longleftrightarrow> \<not> includesStr s sep"
proof (induction sep cur s rule: splitFrom.induct)
  case (1 sep cur)
  then show ?case by simp
next
  case (2 sep cur c cs)
  then show ?case by (auto simp: splitFrom_not_Nil)
qed

lemma joinStr_butlast_last:
  "2 \<le> length ps \<Longrightarrow> joinStr sep ps = joinStr sep (butlast ps) @ sep @ last ps"
proof (induction sep ps rule: joinStr.induct)
  case (3 sep p q ps)
  then show ?case by (cases ps) auto
qed auto

subsection \<open>Item classifier\<close>

text \<open>
  C5 (as the code has it). The segments of a description, rejoined with the delimiter
  \<open>' - '\<close>, give the description back, and there is exactly one segment precisely when
  the delimiter does not occur. With three or more segments the group name is all
  segments but the last rejoined with the delimiter, and the location is the last
  segment, except that an empty last segment gives the location \<open>General\<close>; with
  exactly two segments the group name is the first and the location the second; with one
  segment the group name is the whole description and the location is \<open>General\<close>.
  The description \<open>Grade Beam (GB1) - Concrete C30 - Grid A\<close> is classified as group
  \<open>Grade Beam (GB1) - Concrete C30\<close> at location \<open>Grid A\<close>.
\<close>

theorem classify_by_segments:
  "joinStr '' - '' (splitStr '' - '' d) = d
   \<and> (length (splitStr '' - '' d) = 1) = (\<not> includesStr d '' - '')
   \<and> classify d =
       (if 3 \<le> length (splitStr '' - '' d) then
          (joinStr '' - '' (butlast (splitStr '' - '' d)),
           if last (splitStr '' - '' d) = [] then ''General'' else last (splitStr '' - '' d))
        else if length (splitStr '' - '' d) = 2 then
          (splitStr '' - '' d ! 0, splitStr '' - '' d ! 1)
        else (d, ''General''))
   \<and> classify ''Grade Beam (GB1) - Concrete C30 - Grid A''
       = (''Grade Beam (GB1) - Concrete C30'', ''Grid A'')"
proof -
  have "joinStr '' - '' (splitStr '' - '' d) = d"
    by (simp add: splitStr_def joinStr_splitFrom)
  moreover have "(length (splitStr '' - '' d) = 1) = (\<not> includesStr d '' - '')"
    unfolding splitStr_def by (rule splitFrom_single) simp
  moreover have "classify ''Grade Beam (GB1) - Concrete C30 - Grid A''
       = (''Grade Beam (GB1) - Concrete C30'', ''Grid A'')"
    by (simp add: classify_def splitStr_def)
  ultimately show ?thesis
    by (simp add: classify_def Let_def)
qed

text \<open>
  C5 as stated fails: \<open>A - B - \<close> splits into three segments, the last one empty, and
  the location is \<open>General\<close>, not that last segment.
\<close>

theorem classify_empty_last_segment_counterexample:
  "3 \<le> length (splitStr '' - '' ''A - B - '')
   \<and> snd (classify ''A - B - '') \<noteq> last (splitStr '' - '' ''A - B - '')"
  by (simp add: classify_def splitStr_def)

theorem classify_by_segments_witness:
  "3 \<le> length (splitStr '' - '' ''Beam - Concrete - Grid A'')
   \<and> classify ''Beam - Concrete - Grid A'' = (''Beam - Concrete'', ''Grid A'')
   \<and> length (splitStr '' - '' ''Door - D1'') = 2
   \<and> classify ''Door - D1'' = (''Door'', ''D1'')
   \<and> length (splitStr '' - '' ''Excavation'') = 1
   \<and> classify ''Excavation'' = (''Excavation'', ''General'')"
  using classify_by_segments [of "''Beam - Concrete - Grid A''"]
    classify_by_segments [of "''Door - D1''"]
    classify_by_segments [of "''Excavation''"]
  by (simp add: splitStr_def)

subsection \<open>Sorting with a comparator\<close>

lemma mset_insertBy: "mset (insertBy c x xs) = add_mset x (mset xs)"
  by (induction xs) auto

lemma sortBy_Cons: "sortBy c (x # xs) = insertBy c x (sortBy c xs)"
  by (simp add: sortBy_def)

lemma mset_sortBy: "mset (sortBy c xs) = mset xs"
  by (induction xs) (auto simp: sortBy_def mset_insertBy)

lemma set_insertBy: "set (insertBy c x xs) = insert x (set xs)"
  by (induction xs) auto

lemma set_sortBy: "set (sortBy c xs) = set xs"
  by (metis mset_sortBy set_mset_mset)

lemma sum_list_sortBy:
  fixes f :: "'a \<Rightarrow> real"
  shows "sum_list (map f (sortBy c xs)) = sum_list (map f xs)"
proof -
  have "sum_list (map f (sortBy c xs)) = sum_mset (image_mset f (mset (sortBy c xs)))"
    by (metis mset_map sum_mset_sum_list)
  also have "\<dots> = sum_mset (image_mset f (mset xs))"
    by (simp add: mset_sortBy)
  also have "\<dots> = sum_list (map f xs)"
    by (metis mset_map sum_mset_sum_list)
  finally show ?thesis .
qed

lemma consistent_total: "consistentComparator c \<Longrightarrow> 0 < c a b \<Longrightarrow> c b a \<le> 0"
proof -
  assume cc: "consistentComparator c" and pos: "0 < c a b"
  from cc have "sgn (c a b) = - sgn (c b a)"
    unfolding consistentComparator_def by blast
  with pos show ?thesis by (simp add: sgn_if split: if_splits)
qed

lemma consistent_trans:
  "consistentComparator c \<Longrightarrow> c a b \<le> 0 \<Longrightarrow> c b d \<le> 0 \<Longrightarrow> c a d \<le> 0"
  unfolding consistentComparator_def by (meson not_le)

lemma consistent_sym0: "consistentComparator c \<Longrightarrow> c a b = 0 \<Longrightarrow> c b a = 0"
proof -
  assume cc: "consistentComparator c" and z: "c a b = 0"
  from cc have "sgn (c a b) = - sgn (c b a)"
    unfolding consistentComparator_def by blast
  with z show ?thesis by (simp add: sgn_if split: if_splits)
qed

lemma sorted_insertBy:
  assumes cc: "consistentComparator c"
  shows "sorted_wrt (\<lambda>a b. c a b \<le> 0) xs
           \<Longrightarrow> sorted_wrt (\<lambda>a b. c a b \<le> 0) (insertBy c x xs)"
proof (induction xs)
  case Nil
  then show ?case by simp
next
  case (Cons y ys)
  show ?case
  proof (cases "c x y \<le> 0")
    case True
    with Cons.prems consistent_trans [OF cc] show ?thesis by auto
  next
    case False
    then have "c y x \<le> 0" using consistent_total [OF cc] by simp
    with False Cons show ?thesis by (auto simp: set_insertBy)
  qed
qed

lemma sorted_sortBy:
  "consistentComparator c \<Longrightarrow> sorted_wrt (\<lambda>a b. c a b \<le> 0) (sortBy c xs)"
proof (induction xs)
  case Nil
  then show ?case by (simp add: sortBy_def)
next
  case (Cons x xs)
  then show ?case by (simp add: sortBy_Cons sorted_insertBy)
qed

text \<open>Stability: an inserted element goes in front of the elements it compares equal to.\<close>

lemma filter_insertBy_equiv:
  assumes cc: "consistentComparator c" and zx: "c z x = 0"
  shows "filter (\<lambda>y. c z y = 0) (insertBy c x xs) = x # filter (\<lambda>y. c z y = 0) xs"
proof (induction xs)
  case Nil
  with zx show ?case by simp
next
  case (Cons y ys)
  show ?case
  proof (cases "c x y \<le> 0")
    case True
    with zx show ?thesis by simp
  next
    case False
    have "c z y \<noteq> 0"
    proof
      assume "c z y = 0"
      moreover from zx have "c x z = 0" by (rule consistent_sym0 [OF cc])
      ultimately have "c x y \<le> 0" using consistent_trans [OF cc, of x z y] by simp
      with False show False by simp
    qed
    with False Cons show ?thesis by simp
  qed
qed

lemma filter_insertBy_not_equiv:
  "c z x \<noteq> 0 \<Longrightarrow> filter (\<lambda>y. c z y = 0) (insertBy c x xs) = filter (\<lambda>y. c z y = 0) xs"
  by (induction xs) auto

lemma stable_sortBy:
  "consistentComparator c
     \<Longrightarrow> filter (\<lambda>y. c z y = 0) (sortBy c xs) = filter (\<lambda>y. c z y = 0) xs"
proof (induction xs)
  case Nil
  then show ?case by (simp add: sortBy_def)
next
  case (Cons x xs)
  then show ?case
    by (cases "c z x = 0")
      (simp_all add: sortBy_Cons filter_insertBy_equiv filter_insertBy_not_equiv)
qed

lemma codeCompare_consistent: "consistentComparator codeCompare"
  unfolding consistentComparator_def
proof (intro conjI allI)
  fix a :: string
  show "codeCompare a a = 0" by (simp add: codeCompare_def)
next
  fix a b :: string
  show "sgn (codeCompare a b) = - sgn (codeCompare b a)"
    by (cases a b rule: linorder_cases) (simp_all add: codeCompare_def)
next
  fix a b d :: string
  show "\<not> (codeCompare a b \<le> 0 \<and> codeCompare b d \<le> 0 \<and> 0 < codeCompare a d)"
    by (auto simp: codeCompare_def split: if_splits)
qed

subsection \<open>Grouping and subtotals\<close>

lemma quantity_withAxis [simp]: "quantity (withAxis item a) = quantity item"
  by (simp add: withAxis_def takeoff_item.defs member_item.defs)

lemma pushItem_present:
  "key \<in> fst ` set grps \<Longrightarrow>
     groupTotals (pushItem key m grps) = groupTotals grps + quantity m
     \<and> groupMembers (pushItem key m grps) = add_mset m (groupMembers grps)"
proof (induction grps)
  case Nil
  then show ?case by simp
next
  case (Cons e grps)
  obtain k g where e: "e = (k, g)" by (cases e)
  show ?case
  proof (cases "k = key")
    case True
    with e show ?thesis by (simp add: groupTotals_def groupMembers_def)
  next
    case False
    with Cons.prems e have "key \<in> fst ` set grps" by auto
    then have "groupTotals (pushItem key m grps) = groupTotals grps + quantity m
        \<and> groupMembers (pushItem key m grps) = add_mset m (groupMembers grps)"
      by (rule Cons.IH)
    with False e show ?thesis by (simp add: groupTotals_def groupMembers_def)
  qed
qed

lemma addItem_effect:
  "groupTotals (addItem st cf grps item)
     = groupTotals grps + (if passes st cf item then quantity item else 0)
   \<and> groupMembers (addItem st cf grps item)
     = (if passes st cf item then add_mset (memberOf item) (groupMembers grps)
        else groupMembers grps)"
proof (cases "passes st cf item")
  case False
  then show ?thesis by (auto simp: addItem_def passes_def)
next
  case True
  let ?key = "groupKey (fst (classify (description item))) item"
  show ?thesis
  proof (cases "map_of grps ?key = None")
    case absent: True
    have "groupTotals (pushItem k m (grps @ [(k, g)])) = groupTotals (grps @ [(k, g)]) + quantity m
        \<and> groupMembers (pushItem k m (grps @ [(k, g)])) = add_mset m (groupMembers (grps @ [(k, g)]))"
      for k m g
      by (rule pushItem_present) simp
    with True absent show ?thesis
      by (simp add: addItem_def passes_def Let_def groupTotals_def groupMembers_def memberOf_def)
  next
    case False
    then have "?key \<in> fst ` set grps"
      by (simp add: map_of_eq_None_iff)
    then have "groupTotals (pushItem ?key (memberOf item) grps) = groupTotals grps + quantity item
        \<and> groupMembers (pushItem ?key (memberOf item) grps) = add_mset (memberOf item) (groupMembers grps)"
      using pushItem_present [of ?key grps "memberOf item"] by (simp add: memberOf_def)
    with True False show ?thesis
      by (simp add: addItem_def passes_def Let_def if_not_P memberOf_def)
  qed
qed

lemma foldl_addItem_effect:
  "groupTotals (foldl (addItem st cf) grps its)
     = groupTotals grps + sum_list (map quantity (filter (passes st cf) its))
   \<and> groupMembers (foldl (addItem st cf) grps its)
     = groupMembers grps + mset (map memberOf (filter (passes st cf) its))"
  by (induction its arbitrary: grps) (auto simp: addItem_effect)

lemma totalIsSum_pushItem:
  "list_all (\<lambda>e. totalIsSum (snd e)) grps
     \<Longrightarrow> list_all (\<lambda>e. totalIsSum (snd e)) (pushItem key m grps)"
  by (induction grps) (auto simp: totalIsSum_def)

lemma totalIsSum_addItem:
  "list_all (\<lambda>e. totalIsSum (snd e)) grps
     \<Longrightarrow> list_all (\<lambda>e. totalIsSum (snd e)) (addItem st cf grps item)"
  by (auto simp: addItem_def Let_def totalIsSum_def
      intro!: totalIsSum_pushItem [unfolded totalIsSum_def])

lemma totalIsSum_foldl:
  "list_all (\<lambda>e. totalIsSum (snd e)) grps
     \<Longrightarrow> list_all (\<lambda>e. totalIsSum (snd e)) (foldl (addItem st cf) grps its)"
  by (induction its arbitrary: grps) (auto simp: totalIsSum_addItem)

lemma collectGroups_totalIsSum: "list_all totalIsSum (collectGroups its st cf)"
  using totalIsSum_foldl [of "[]" st cf its] by (simp add: collectGroups_def list_all_iff)

lemma collectGroups_totals:
  "sum_list (map g_totalQuantity (collectGroups its st cf))
     = sum_list (map quantity (filter (passes st cf) its))"
  using foldl_addItem_effect [of st cf "[]" its]
  by (simp add: collectGroups_def groupTotals_def comp_def)

lemma collectGroups_members:
  "mset (concat (map g_items (collectGroups its st cf)))
     = mset (map memberOf (filter (passes st cf) its))"
  using foldl_addItem_effect [of st cf "[]" its]
  by (simp add: collectGroups_def groupMembers_def comp_def)

lemma mset_concat_map_sortBy:
  "mset (concat (map f (sortBy c xs))) = mset (concat (map f xs))"
proof -
  have "mset (concat (map f ys)) = (\<Sum>x\<in>#mset ys. mset (f x))" for ys
    by (induction ys) auto
  then show ?thesis by (simp add: mset_sortBy)
qed

text \<open>
  An item passes when the lower-cased search term is a substring of its lower-cased
  description and the category filter is \<open>All\<close> or the item's category.
\<close>

lemma passes_iff:
  "passes searchTerm categoryFilter item
     \<longleftrightarrow> sublist (toLowerCase searchTerm) (toLowerCase (description item))
         \<and> (categoryFilter = ''All'' \<or> category item = categoryFilter)"
  by (simp add: passes_def matchesSearch_def matchesCategory_def includesStr_iff)

text \<open>
  C2. For every item batch, search term and category filter, the totals of the resulting
  groups add up to the sum of the quantities of exactly the items that pass the
  case-insensitive substring search on the description and the category filter (with
  \<open>All\<close> passing every category); the members of the groups are exactly the passing
  items, and each group's total is the sum of its members' quantities. Numbers are exact,
  which is the sum up to floating-point reassociation.
\<close>

theorem groupedData_totals:
  "sum_list (map g_totalQuantity (groupedData cmp data searchTerm categoryFilter))
     = sum_list (map quantity (filter (passes searchTerm categoryFilter) (items data)))
   \<and> mset (concat (map g_items (groupedData cmp data searchTerm categoryFilter)))
     = mset (map memberOf (filter (passes searchTerm categoryFilter) (items data)))
   \<and> list_all totalIsSum (groupedData cmp data searchTerm categoryFilter)"
proof -
  have "list_all totalIsSum (groupedData cmp data searchTerm categoryFilter)"
    using collectGroups_totalIsSum [of "items data" searchTerm categoryFilter]
    by (simp add: groupedData_def list_all_iff set_sortBy)
  then show ?thesis
    by (simp add: groupedData_def sum_list_sortBy collectGroups_totals
        mset_concat_map_sortBy collectGroups_members)
qed

lemma example_passes_beam:
  "filter (passes ''BEAM'' ''All'') (items exampleData)
     = [mkItem ''Beam - C30 - Grid A'' 1 ''15.00 x 0.60 x 1.20'' 10.8 ''m3'' ''Sub Structure'',
        mkItem ''Beam - C30 - Grid B'' 2 ''10.00 x 0.60 x 1.20'' 14.4 ''m3'' ''Sub Structure'']"
  by code_simp

theorem groupedData_totals_witness:
  "sum_list (map g_totalQuantity (groupedData codeCompare exampleData ''BEAM'' ''All'')) = 25.2
   \<and> list_all totalIsSum (groupedData codeCompare exampleData ''BEAM'' ''All'')"
  using groupedData_totals [of codeCompare exampleData "''BEAM''" "''All''"]
  unfolding example_passes_beam by (simp add: mkItem_def)

subsection \<open>Output order of the groups\<close>

lemma indexOf_range:
  "indexOf xs x = - 1 \<or> (0 \<le> indexOf xs x \<and> indexOf xs x < int (length xs))"
  by (induction xs) (auto simp: Let_def)

lemma indexOf_absent: "indexOf xs x = - 1 \<longleftrightarrow> x \<notin> set xs"
proof (induction xs)
  case Nil
  then show ?case by simp
next
  case (Cons y ys)
  with indexOf_range [of ys x] show ?case by (auto simp: Let_def)
qed

lemma catRank_index:
  "catRank g = (if indexOf CATEGORY_ORDER (g_category g) = - 1 then 999
                else indexOf CATEGORY_ORDER (g_category g))"
  by (simp add: catRank_def indexOf_absent)

lemma catRank_known:
  assumes "g_category g \<in> set CATEGORY_ORDER"
  shows "0 \<le> catRank g \<and> catRank g < 8"
proof -
  from assms have "indexOf CATEGORY_ORDER (g_category g) \<noteq> - 1"
    by (simp add: indexOf_absent)
  moreover have "length CATEGORY_ORDER = 8" by (simp add: CATEGORY_ORDER_def)
  ultimately show ?thesis
    using indexOf_range [of CATEGORY_ORDER "g_category g"] by (simp add: catRank_index)
qed

lemma catRank_unknown: "g_category g \<notin> set CATEGORY_ORDER \<Longrightarrow> catRank g = 999"
  by (simp add: catRank_def)

lemma catRank_eq_iff:
  "catRank a = catRank b
     \<longleftrightarrow> indexOf CATEGORY_ORDER (g_category a) = indexOf CATEGORY_ORDER (g_category b)"
proof -
  have "length CATEGORY_ORDER = 8" by (simp add: CATEGORY_ORDER_def)
  then show ?thesis
    using indexOf_range [of CATEGORY_ORDER "g_category a"]
      indexOf_range [of CATEGORY_ORDER "g_category b"]
    by (auto simp: catRank_index)
qed

text \<open>The comparator of the sort, read through the priority of the categories.\<close>

lemma compareGroups_alt:
  "compareGroups cmp a b =
     (if catRank a \<noteq> catRank b then catRank a - catRank b else cmp (g_name a) (g_name b))"
  using catRank_eq_iff [of a b] by (simp add: compareGroups_def Let_def catRank_index)

lemma compareGroups_consistent:
  assumes cc: "consistentComparator cmp"
  shows "consistentComparator (compareGroups cmp)"
  unfolding consistentComparator_def
proof (intro conjI allI)
  fix a :: grouped_item
  from cc have "cmp (g_name a) (g_name a) = 0"
    unfolding consistentComparator_def by blast
  then show "compareGroups cmp a a = 0"
    by (simp add: compareGroups_alt)
next
  fix a b :: grouped_item
  from cc have "sgn (cmp (g_name a) (g_name b)) = - sgn (cmp (g_name b) (g_name a))"
    unfolding consistentComparator_def by blast
  then show "sgn (compareGroups cmp a b) = - sgn (compareGroups cmp b a)"
    by (cases "catRank a = catRank b") (auto simp: compareGroups_alt sgn_if)
next
  fix a b d :: grouped_item
  show "\<not> (compareGroups cmp a b \<le> 0 \<and> compareGroups cmp b d \<le> 0
            \<and> 0 < compareGroups cmp a d)"
    using consistent_trans [OF cc, of "g_name a" "g_name b" "g_name d"]
    by (auto simp: compareGroups_alt split: if_splits)
qed

lemma compareGroups_le:
  "compareGroups cmp a b \<le> 0
     \<longleftrightarrow> catRank a < catRank b \<or> (catRank a = catRank b \<and> cmp (g_name a) (g_name b) \<le> 0)"
  by (auto simp: compareGroups_alt)

lemma compareGroups_eq0:
  "compareGroups cmp z g = 0 \<longleftrightarrow> catRank g = catRank z \<and> cmp (g_name z) (g_name g) = 0"
  by (auto simp: compareGroups_alt)

text \<open>
  C6 (as the code has it). For a consistent name comparison \<open>cmp\<close>, the output list is a
  rearrangement of the groups in encounter order such that: a group never comes after a
  group of lower category priority, the priority being the position in the canonical
  table and 999 for a category that is not in it; so a group whose category is in the
  table never comes after a group whose category is not; groups of equal priority - in
  particular all groups whose categories are not in the table - are ordered by name;
  and groups of equal priority whose names compare equal keep their encounter order.
\<close>

theorem groupedData_order:
  assumes "consistentComparator cmp"
  shows "mset (groupedData cmp data searchTerm categoryFilter)
           = mset (collectGroups (items data) searchTerm categoryFilter)
    \<and> sorted_wrt (\<lambda>a b. catRank a \<le> catRank b
                     \<and> (catRank a = catRank b \<longrightarrow> cmp (g_name a) (g_name b) \<le> 0))
         (groupedData cmp data searchTerm categoryFilter)
    \<and> sorted_wrt (\<lambda>a b. g_category b \<in> set CATEGORY_ORDER
                     \<longrightarrow> g_category a \<in> set CATEGORY_ORDER)
         (groupedData cmp data searchTerm categoryFilter)
    \<and> (\<forall>z. filter (\<lambda>g. catRank g = catRank z \<and> cmp (g_name z) (g_name g) = 0)
              (groupedData cmp data searchTerm categoryFilter)
           = filter (\<lambda>g. catRank g = catRank z \<and> cmp (g_name z) (g_name g) = 0)
              (collectGroups (items data) searchTerm categoryFilter))"
proof -
  let ?inp = "collectGroups (items data) searchTerm categoryFilter"
  let ?out = "groupedData cmp data searchTerm categoryFilter"
  have cg: "consistentComparator (compareGroups cmp)"
    using assms by (rule compareGroups_consistent)
  have perm: "mset ?out = mset ?inp"
    by (simp add: groupedData_def mset_sortBy)
  have srt: "sorted_wrt (\<lambda>a b. compareGroups cmp a b \<le> 0) ?out"
    unfolding groupedData_def using cg by (rule sorted_sortBy)
  have byRank: "sorted_wrt (\<lambda>a b. catRank a \<le> catRank b
                     \<and> (catRank a = catRank b \<longrightarrow> cmp (g_name a) (g_name b) \<le> 0)) ?out"
    by (rule sorted_wrt_mono_rel [OF _ srt]) (auto simp: compareGroups_le)
  have known: "sorted_wrt (\<lambda>a b. g_category b \<in> set CATEGORY_ORDER
                     \<longrightarrow> g_category a \<in> set CATEGORY_ORDER) ?out"
  proof (rule sorted_wrt_mono_rel [OF _ byRank])
    fix a b :: grouped_item
    assume le: "catRank a \<le> catRank b
                  \<and> (catRank a = catRank b \<longrightarrow> cmp (g_name a) (g_name b) \<le> 0)"
    show "g_category b \<in> set CATEGORY_ORDER \<longrightarrow> g_category a \<in> set CATEGORY_ORDER"
    proof
      assume "g_category b \<in> set CATEGORY_ORDER"
      then have "catRank b < 8" using catRank_known by blast
      with le have "catRank a \<noteq> 999" by simp
      then show "g_category a \<in> set CATEGORY_ORDER"
        using catRank_unknown by blast
    qed
  qed
  have stable: "filter (\<lambda>g. catRank g = catRank z \<and> cmp (g_name z) (g_name g) = 0) ?out
           = filter (\<lambda>g. catRank g = catRank z \<and> cmp (g_name z) (g_name g) = 0) ?inp" for z
    using stable_sortBy [OF cg, of z ?inp]
    by (simp add: groupedData_def compareGroups_eq0)
  from perm byRank known stable show ?thesis by blast
qed

lemma example_encounter_order:
  "map g_name (collectGroups (items exampleData) [] ''All'')
     = [''Wall Paint'', ''Beam - C30'', ''Zinc Flashing'', ''Asphalt'']
   \<and> map g_category (collectGroups (items exampleData) [] ''All'')
     = [''Painting'', ''Sub Structure'', ''Roofing'', ''Landscaping'']"
  by code_simp

lemma example_output_order:
  "map g_name (groupedData codeCompare exampleData [] ''All'')
     = [''Beam - C30'', ''Wall Paint'', ''Asphalt'', ''Zinc Flashing'']
   \<and> map g_category (groupedData codeCompare exampleData [] ''All'')
     = [''Sub Structure'', ''Painting'', ''Landscaping'', ''Roofing'']"
  by code_simp

text \<open>
  C6 as stated fails in its last part: the groups \<open>Zinc Flashing\<close> (category
  \<open>Roofing\<close>) and \<open>Asphalt\<close> (category \<open>Landscaping\<close>), both outside the table, are
  encountered in this order and come out in the other, by name.
\<close>

theorem unknown_categories_sorted_by_name_counterexample:
  "''Roofing'' \<notin> set CATEGORY_ORDER \<and> ''Landscaping'' \<notin> set CATEGORY_ORDER
   \<and> map g_name (collectGroups (items exampleData) [] ''All'')
       = [''Wall Paint'', ''Beam - C30'', ''Zinc Flashing'', ''Asphalt'']
   \<and> map g_category (collectGroups (items exampleData) [] ''All'')
       = [''Painting'', ''Sub Structure'', ''Roofing'', ''Landscaping'']
   \<and> map g_name (groupedData codeCompare exampleData [] ''All'')
       = [''Beam - C30'', ''Wall Paint'', ''Asphalt'', ''Zinc Flashing'']
   \<and> map g_category (groupedData codeCompare exampleData [] ''All'')
       = [''Sub Structure'', ''Painting'', ''Landscaping'', ''Roofing'']"
  using example_encounter_order example_output_order
  by (simp add: CATEGORY_ORDER_def)

theorem groupedData_order_witness:
  "consistentComparator codeCompare
   \<and> map g_category (groupedData codeCompare exampleData [] ''All'')
       = [''Sub Structure'', ''Painting'', ''Landscaping'', ''Roofing'']
   \<and> mset (groupedData codeCompare exampleData [] ''All'')
       = mset (collectGroups (items exampleData) [] ''All'')
   \<and> sorted_wrt (\<lambda>a b. g_category b \<in> set CATEGORY_ORDER
                     \<longrightarrow> g_category a \<in> set CATEGORY_ORDER)
         (groupedData codeCompare exampleData [] ''All'')"
  using groupedData_order [OF codeCompare_consistent, of exampleData "[]" "''All''"]
    codeCompare_consistent example_output_order
  by blast

subsection \<open>Grand total\<close>

lemma orZero_priceOf:
  "unitPrices nm \<noteq> None \<or> nm \<notin> set objectPrototypeMembers
     \<Longrightarrow> orZero (objGet unitPrices nm) = Val (priceOf unitPrices nm)"
  by (auto simp: orZero_def objGet_def priceOf_def split: option.splits)

lemma foldl_plusNum_finite:
  assumes "\<And>x. x \<in> set xs \<Longrightarrow> f x = Finite (h x)"
  shows "foldl (\<lambda>total x. plusNum total (f x)) (Finite a) xs
           = Finite (a + sum_list (map h xs))"
  using assms
proof (induction xs arbitrary: a)
  case Nil
  then show ?case by simp
next
  case (Cons x xs)
  then have "foldl (\<lambda>total x. plusNum total (f x)) (Finite (a + h x)) xs
           = Finite ((a + h x) + sum_list (map h xs))"
    by simp
  with Cons.prems [of x] show ?case
    by (simp add: plusNum_def add.assoc)
qed

text \<open>
  What holds of the grand total: when every group and summary name without a price of
  its own is not the name of a member of \<^verbatim>\<open>Object.prototype\<close>, the grand total is the
  sum over the groups of total quantity times price plus the sum over the rebar summaries
  of total quantity times price, a name without a price having price 0. The display
  names of the rebar summaries are never such names.
\<close>

lemma grandTotalCost_own_prices:
  assumes "\<And>g. g \<in> set grouped
             \<Longrightarrow> unitPrices (g_name g) \<noteq> None \<or> g_name g \<notin> set objectPrototypeMembers"
    and "\<And>r. r \<in> set rebar
             \<Longrightarrow> unitPrices (r_name r) \<noteq> None \<or> r_name r \<notin> set objectPrototypeMembers"
  shows "grandTotalCost grouped rebar unitPrices
     = Finite (sum_list (map (\<lambda>g. g_totalQuantity g * priceOf unitPrices (g_name g)) grouped)
               + sum_list (map (\<lambda>r. r_totalQuantity r * priceOf unitPrices (r_name r)) rebar))"
proof -
  have g: "foldl (\<lambda>total grp. plusNum total
                (timesRate (g_totalQuantity grp) (orZero (objGet unitPrices (g_name grp)))))
             (Finite 0) grouped
       = Finite (0 + sum_list (map (\<lambda>g. g_totalQuantity g * priceOf unitPrices (g_name g)) grouped))"
  proof (rule foldl_plusNum_finite)
    fix x assume "x \<in> set grouped"
    then have "unitPrices (g_name x) \<noteq> None \<or> g_name x \<notin> set objectPrototypeMembers"
      by (rule assms(1))
    then have "orZero (objGet unitPrices (g_name x)) = Val (priceOf unitPrices (g_name x))"
      by (rule orZero_priceOf)
    then show "timesRate (g_totalQuantity x) (orZero (objGet unitPrices (g_name x)))
                 = Finite (g_totalQuantity x * priceOf unitPrices (g_name x))"
      by (simp add: timesRate_def)
  qed
  have r: "foldl (\<lambda>total grp. plusNum total
                (timesRate (r_totalQuantity grp) (orZero (objGet unitPrices (r_name grp)))))
             (Finite a) rebar
       = Finite (a + sum_list (map (\<lambda>r. r_totalQuantity r * priceOf unitPrices (r_name r)) rebar))"
    for a
  proof (rule foldl_plusNum_finite)
    fix x assume "x \<in> set rebar"
    then have "unitPrices (r_name x) \<noteq> None \<or> r_name x \<notin> set objectPrototypeMembers"
      by (rule assms(2))
    then have "orZero (objGet unitPrices (r_name x)) = Val (priceOf unitPrices (r_name x))"
      by (rule orZero_priceOf)
    then show "timesRate (r_totalQuantity x) (orZero (objGet unitPrices (r_name x)))
                 = Finite (r_totalQuantity x * priceOf unitPrices (r_name x))"
      by (simp add: timesRate_def)
  qed
  show ?thesis
    unfolding grandTotalCost_def Let_def g r by simp
qed

lemma displayName_not_inherited: "displayName ty \<notin> set objectPrototypeMembers"
  by (simp add: displayName_def objectPrototypeMembers_def)

lemma example_grandTotal:
  "grandTotalCost
     [\<lparr>g_name = ''Beam'', g_unit = ''m3'', g_category = ''Sub Structure'', g_items = [],
        g_totalQuantity = 10\<rparr>,
      \<lparr>g_name = ''Paint'', g_unit = ''m2'', g_category = ''Painting'', g_items = [],
        g_totalQuantity = 4\<rparr>]
     [\<lparr>r_name = ''Reinforcement Bars (Type Y16)'', r_totalQuantity = 50, r_unit = ''kg''\<rparr>]
     [''Beam'' \<mapsto> 3, ''Reinforcement Bars (Type Y16)'' \<mapsto> 2] = Finite 130"
proof -
  have "grandTotalCost
     [\<lparr>g_name = ''Beam'', g_unit = ''m3'', g_category = ''Sub Structure'', g_items = [],
        g_totalQuantity = 10\<rparr>,
      \<lparr>g_name = ''Paint'', g_unit = ''m2'', g_category = ''Painting'', g_items = [],
        g_totalQuantity = 4\<rparr>]
     [\<lparr>r_name = ''Reinforcement Bars (Type Y16)'', r_totalQuantity = 50, r_unit = ''kg''\<rparr>]
     [''Beam'' \<mapsto> 3, ''Reinforcement Bars (Type Y16)'' \<mapsto> 2]
     = Finite (sum_list (map (\<lambda>g. g_totalQuantity g
                 * priceOf [''Beam'' \<mapsto> 3, ''Reinforcement Bars (Type Y16)'' \<mapsto> 2] (g_name g))
          [\<lparr>g_name = ''Beam'', g_unit = ''m3'', g_category = ''Sub Structure'', g_items = [],
             g_totalQuantity = 10\<rparr>,
           \<lparr>g_name = ''Paint'', g_unit = ''m2'', g_category = ''Painting'', g_items = [],
             g_totalQuantity = 4\<rparr>])
        + sum_list (map (\<lambda>r. r_totalQuantity r
                 * priceOf [''Beam'' \<mapsto> 3, ''Reinforcement Bars (Type Y16)'' \<mapsto> 2] (r_name r))
          [\<lparr>r_name = ''Reinforcement Bars (Type Y16)'', r_totalQuantity = 50,
             r_unit = ''kg''\<rparr>]))"
    by (rule grandTotalCost_own_prices) (auto simp: objectPrototypeMembers_def)
  then show ?thesis by (simp add: priceOf_def)
qed

text \<open>
  C7 fails on the code. An item described as \<open>constructor\<close> forms the group named
  \<open>constructor\<close>, with total quantity 10. With no price set, \<^verbatim>\<open>unitPrices[group.name]\<close>
  is not \<^verbatim>\<open>undefined\<close> but the function the plain object inherits under that name; it
  is truthy, so it is the rate, the product with the quantity is NaN and so is the grand
  total, where C7 gives the name the price 0 and the total 0. In the export of that
  render the rate cell of the group's BOQ row holds the same function.
\<close>

theorem grandTotalCost_inherited_name:
  "map g_name (groupedData codeCompare constructorData [] ''All'') = [''constructor'']
   \<and> map g_totalQuantity (groupedData codeCompare constructorData [] ''All'') = [10]
   \<and> grandTotalCost (groupedData codeCompare constructorData [] ''All'')
        (rebarSummary codeCompare constructorData) Map.empty = NaN
   \<and> v_grandTotalCost (render codeCompare constructorData [] ''All'' Map.empty) = NaN
   \<and> map_of (synthesizeWorkbook codeCompare wholeStr constructorData [] ''All'' Map.empty)
       ''Bill of Quantities''
       = Some [boqHeader,
               [Str ''constructor'', Str ''m2'',
                Obj (Some ([CHR 0x27] @ ''Dim Sheet'' @ [CHR 0x27] @ ''!D6'')) None,
                ObjProtoV ''constructor'', Obj (Some ''C2*D2'') None],
               [Str [], Str [], Str [], Str [], Str []],
               [Str ''GRAND TOTAL'', Str [], Str [], Str [],
                Obj (Some ''SUM(E2:E2)'') None]]"
  by code_simp

subsection \<open>Rebar aggregation\<close>

lemma keys_mapSet_present: "k \<in> fst ` set m \<Longrightarrow> map fst (mapSet k v m) = map fst m"
proof (induction m)
  case Nil
  then show ?case by simp
next
  case (Cons e m)
  show ?case
  proof (cases "fst e = k")
    case True
    then show ?thesis by (cases e) simp
  next
    case False
    with Cons.prems have "k \<in> fst ` set m" by auto
    then have "map fst (mapSet k v m) = map fst m" by (rule Cons.IH)
    with False show ?thesis by (cases e) simp
  qed
qed

lemma keys_mapSet_absent: "k \<notin> fst ` set m \<Longrightarrow> map fst (mapSet k v m) = map fst m @ [k]"
  by (induction m) auto

lemma weightFor_snoc:
  "weightFor (rs @ [r]) ty = weightFor rs ty + (if barType r = ty then totalWeight r else 0)"
  by (simp add: weightFor_def)

lemma weightFor_absent: "ty \<notin> barType ` set rs \<Longrightarrow> weightFor rs ty = 0"
proof -
  assume "ty \<notin> barType ` set rs"
  then have "filter (\<lambda>r. barType r = ty) rs = []"
    by (auto simp: filter_empty_conv)
  then show ?thesis by (simp add: weightFor_def)
qed

lemma summaryInv_lookup:
  assumes "summaryInv m seen"
  shows "orDefault (map_of m ty) 0 = weightFor seen ty"
proof (cases "map_of m ty")
  case None
  then have "ty \<notin> fst ` set m"
    by (simp add: map_of_eq_None_iff)
  with assms have "weightFor seen ty = 0"
    by (simp add: summaryInv_def weightFor_absent)
  with None show ?thesis by (simp add: orDefault_def)
next
  case (Some w)
  then have "(ty, w) \<in> set m" by (rule map_of_SomeD)
  with assms have "w = weightFor seen ty"
    by (auto simp: summaryInv_def list_all_iff)
  with Some show ?thesis by (simp add: orDefault_def)
qed

lemma mapSet_values:
  assumes "distinct (map fst m)" and "list_all (\<lambda>e. snd e = f (fst e)) m"
    and agree: "\<And>ty. ty \<noteq> k \<Longrightarrow> g ty = f ty"
  shows "list_all (\<lambda>e. snd e = g (fst e)) (mapSet k (g k) m)"
  using assms(1,2)
proof (induction m)
  case Nil
  then show ?case by simp
next
  case (Cons e m)
  obtain k' v' where e: "e = (k', v')" by (cases e)
  show ?case
  proof (cases "k' = k")
    case True
    have "snd x = g (fst x)" if "x \<in> set m" for x
    proof -
      from that Cons.prems(1) e True have "fst x \<noteq> k" by auto
      moreover from that Cons.prems(2) have "snd x = f (fst x)"
        by (simp add: list_all_iff)
      ultimately show ?thesis by (simp add: agree)
    qed
    with True e show ?thesis by (simp add: list_all_iff)
  next
    case False
    with Cons e agree show ?thesis by simp
  qed
qed

lemma summaryInv_step:
  assumes inv: "summaryInv m seen"
  shows "summaryInv (summaryStep m r) (seen @ [r])"
proof -
  let ?k = "barType r"
  let ?g = "weightFor (seen @ [r])"
  have step: "summaryStep m r = mapSet ?k (?g ?k) m"
    by (simp add: summaryStep_def Let_def summaryInv_lookup [OF inv] weightFor_snoc)
  from inv have d: "distinct (map fst m)"
    and vals: "list_all (\<lambda>e. snd e = weightFor seen (fst e)) m"
    and keys: "fst ` set m = barType ` set seen"
    by (simp_all add: summaryInv_def)
  have "list_all (\<lambda>e. snd e = ?g (fst e)) (mapSet ?k (?g ?k) m)"
    by (rule mapSet_values [OF d vals]) (simp add: weightFor_snoc)
  moreover have "distinct (map fst (mapSet ?k (?g ?k) m))"
    using d by (cases "?k \<in> fst ` set m") (simp_all add: keys_mapSet_present keys_mapSet_absent)
  moreover have "fst ` set (mapSet ?k (?g ?k) m) = barType ` set (seen @ [r])"
  proof -
    have "fst ` set (mapSet ?k (?g ?k) m) = set (map fst (mapSet ?k (?g ?k) m))"
      by simp
    also have "\<dots> = insert ?k (fst ` set m)"
      by (cases "?k \<in> fst ` set m") (auto simp: keys_mapSet_present keys_mapSet_absent)
    also have "\<dots> = barType ` set (seen @ [r])"
      using keys by auto
    finally show ?thesis .
  qed
  ultimately show ?thesis
    unfolding step summaryInv_def by blast
qed

lemma summaryInv_foldl:
  "summaryInv m seen \<Longrightarrow> summaryInv (foldl summaryStep m rs) (seen @ rs)"
proof (induction rs arbitrary: m seen)
  case Nil
  then show ?case by simp
next
  case (Cons r rs)
  from Cons.prems have "summaryInv (summaryStep m r) (seen @ [r])"
    by (rule summaryInv_step)
  then have "summaryInv (foldl summaryStep (summaryStep m r) rs) ((seen @ [r]) @ rs)"
    by (rule Cons.IH)
  then show ?case by simp
qed

lemma summaryInv_result: "summaryInv (foldl summaryStep [] rs) rs"
  using summaryInv_foldl [of "[]" "[]" rs] by (simp add: summaryInv_def)

lemma displayName_inj: "displayName a = displayName b \<Longrightarrow> a = b"
  by (simp add: displayName_def)

lemma summaries_unsorted:
  "mset (map toSummary (foldl summaryStep [] rs))
     = mset (map (summaryFor rs) (remdups (map barType rs)))
   \<and> distinct (map r_name (map toSummary (foldl summaryStep [] rs)))"
proof -
  let ?m = "foldl summaryStep [] rs"
  have inv: "summaryInv ?m rs" by (rule summaryInv_result)
  have each: "toSummary e = summaryFor rs (fst e)" if "e \<in> set ?m" for e
  proof -
    from inv that have "snd e = weightFor rs (fst e)"
      by (simp add: summaryInv_def list_all_iff)
    then show ?thesis
      by (simp add: toSummary_def summaryFor_def displayName_def)
  qed
  then have shape: "map toSummary ?m = map (summaryFor rs) (map fst ?m)"
    by (simp add: comp_def)
  from inv have d: "distinct (map fst ?m)" and s: "set (map fst ?m) = set (map barType rs)"
    by (simp_all add: summaryInv_def)
  from d s have "mset (map fst ?m) = mset (remdups (map barType rs))"
    by (metis distinct_remdups set_eq_iff_mset_eq_distinct set_remdups)
  then have perm: "mset (map (summaryFor rs) (map fst ?m))
               = mset (map (summaryFor rs) (remdups (map barType rs)))"
    by (metis mset_map)
  have "r_name (toSummary e) = displayName (fst e)" for e
    by (simp add: toSummary_def)
  then have "map r_name (map toSummary ?m) = map displayName (map fst ?m)"
    by (simp add: comp_def)
  moreover have "distinct (map displayName (map fst ?m))"
    using d by (simp add: distinct_map inj_on_def displayName_inj del: map_map)
  ultimately have "distinct (map r_name (map toSummary ?m))"
    by (simp del: map_map)
  with perm shape show ?thesis by (simp del: map_map)
qed

lemma consistent_on_key:
  "consistentComparator cmp \<Longrightarrow> consistentComparator (\<lambda>a b. cmp (key a) (key b))"
  unfolding consistentComparator_def by blast

text \<open>
  C8. For every rebar record batch, the summaries are, up to their order, one summary per
  distinct bar type of the batch, with display name \<open>Reinforcement Bars (Type t)\<close>, the
  sum of \<open>totalWeight\<close> over all records of bar type \<open>t\<close> as aggregate weight and unit
  \<open>kg\<close>; their display names are pairwise distinct; and for a consistent name
  comparison the summaries are sorted by display name.
\<close>

theorem rebarSummary_per_barType:
  "mset (rebarSummary cmp data)
     = mset (map (summaryFor (rebarItemsOrEmpty data))
               (remdups (map barType (rebarItemsOrEmpty data))))
   \<and> distinct (map r_name (rebarSummary cmp data))
   \<and> (consistentComparator cmp \<longrightarrow>
        sorted_wrt (\<lambda>a b. cmp (r_name a) (r_name b) \<le> 0) (rebarSummary cmp data))"
proof -
  let ?c = "\<lambda>a b. cmp (r_name a) (r_name b)"
  let ?u = "map toSummary (foldl summaryStep [] (rebarItemsOrEmpty data))"
  have out: "rebarSummary cmp data = sortBy ?c ?u"
    by (simp only: rebarSummary_def)
  have perm: "mset (sortBy ?c ?u) = mset ?u"
    by (rule mset_sortBy)
  then have "mset (map r_name (sortBy ?c ?u)) = mset (map r_name ?u)"
    by (metis mset_map)
  then have "distinct (map r_name (sortBy ?c ?u)) = distinct (map r_name ?u)"
    by (metis mset_eq_imp_distinct_iff)
  with summaries_unsorted [of "rebarItemsOrEmpty data"]
  have dist: "distinct (map r_name (sortBy ?c ?u))"
    by blast
  have srt: "sorted_wrt (\<lambda>a b. ?c a b \<le> 0) (sortBy ?c ?u)"
    if "consistentComparator cmp"
  proof -
    from that have "consistentComparator ?c"
      by (rule consistent_on_key)
    then show ?thesis by (rule sorted_sortBy)
  qed
  from summaries_unsorted [of "rebarItemsOrEmpty data"] perm
  have "mset (sortBy ?c ?u) = mset (map (summaryFor (rebarItemsOrEmpty data))
               (remdups (map barType (rebarItemsOrEmpty data))))"
    by simp
  with dist srt show ?thesis
    unfolding out by blast
qed

lemma example_rebarSummary:
  "rebarSummary codeCompare exampleData
     = [\<lparr>r_name = ''Reinforcement Bars (Type R8)'', r_totalQuantity = 9.5, r_unit = ''kg''\<rparr>,
        \<lparr>r_name = ''Reinforcement Bars (Type Y16)'', r_totalQuantity = 50, r_unit = ''kg''\<rparr>]"
  by code_simp

theorem rebarSummary_per_barType_witness:
  "consistentComparator codeCompare
   \<and> sorted_wrt (\<lambda>a b. codeCompare (r_name a) (r_name b) \<le> 0)
       (rebarSummary codeCompare exampleData)
   \<and> map r_name (rebarSummary codeCompare exampleData)
       = [''Reinforcement Bars (Type R8)'', ''Reinforcement Bars (Type Y16)'']
   \<and> map r_totalQuantity (rebarSummary codeCompare exampleData) = [9.5, 50]"
proof -
  have "sorted_wrt (\<lambda>a b. codeCompare (r_name a) (r_name b) \<le> 0)
          (rebarSummary codeCompare exampleData)"
    using rebarSummary_per_barType [of codeCompare exampleData] codeCompare_consistent
    by blast
  then show ?thesis
    using codeCompare_consistent by (simp add: example_rebarSummary)
qed

subsection \<open>Bar type in the conditional-sum formula\<close>

lemma replaceFirst_at_head: "replaceFirst pat [] (pat @ s) = s"
proof (cases "pat @ s")
  case Nil
  then show ?thesis by simp
next
  case (Cons c cs)
  have "prefix pat (pat @ s)" by simp
  then have "replaceFirst pat [] (c # cs) = drop (length pat) (c # cs)"
    unfolding Cons by simp
  then show ?thesis
    using Cons by (metis append_eq_conv_conj)
qed

lemma extractBarType_displayName:
  "extractBarType (displayName ty) = replaceFirst '')'' [] (ty @ '')'')"
  using replaceFirst_at_head [of "''Reinforcement Bars (Type ''" "ty @ '')''"]
  by (simp add: extractBarType_def displayName_def)

lemma replaceFirst_paren_absent:
  "CHR '')'' \<notin> set ty \<Longrightarrow> replaceFirst '')'' [] (ty @ '')'') = ty"
  by (induction ty) auto

text \<open>
  The extraction gives the bar type back when the bar type has no closing parenthesis.
\<close>

lemma extractBarType_exact:
  "CHR '')'' \<notin> set ty \<Longrightarrow> extractBarType (displayName ty) = ty"
  by (simp add: extractBarType_displayName replaceFirst_paren_absent)

text \<open>
  C9 fails on the code. A rebar record of bar type \<open>Y12 (T) @ 150\<close> is written to
  column C of the Rebar Schedule with that text and summarised under the display name
  \<open>Reinforcement Bars (Type Y12 (T) @ 150)\<close>, but the bar type recovered from the
  display name, and with it the criterion of the conditional-sum formula of the BOQ row,
  is \<open>Y12 (T @ 150)\<close>: the second \<^verbatim>\<open>replace\<close> removes the first closing
  parenthesis of the text, not the one the display name appended.
\<close>

theorem extractBarType_inner_parenthesis:
  "rebarRows barTypeData ! 1 ! 2 = Str ''Y12 (T) @ 150''
   \<and> map r_name (rebarSummary codeCompare barTypeData)
       = [''Reinforcement Bars (Type Y12 (T) @ 150)'']
   \<and> extractBarType ''Reinforcement Bars (Type Y12 (T) @ 150)'' = ''Y12 (T @ 150)''
   \<and> emitBoq Map.empty [] (rebarSummary codeCompare barTypeData) Map.empty ! 3 ! 2
       = createFormulaCell (sumIfFormula ''Y12 (T @ 150)'')"
  by code_simp

subsection \<open>Independence of the rebar outputs from the filters\<close>

lemma synthesizeWorkbook_rebar_sheet:
  "map_of (synthesizeWorkbook cmp numStr data searchTerm categoryFilter unitPrices)
      ''Rebar Schedule''
     = Some (rebarHeaders # map rebarRow (rebarItemsOrEmpty data))"
  by (simp add: synthesizeWorkbook_def handleExport_def Let_def rebarRows_def)

text \<open>
  C10. Two renders over the same item and rebar batches that differ in the search term
  and the category filter derive the same rebar summary, and their exports hold the same
  Rebar Schedule sheet: the header row followed by one row per input rebar record, in
  input order.
\<close>

theorem rebar_outputs_ignore_filters:
  "v_rebarSummary (render cmp data searchTerm1 categoryFilter1 unitPrices)
     = v_rebarSummary (render cmp data searchTerm2 categoryFilter2 unitPrices)
   \<and> map_of (synthesizeWorkbook cmp numStr data searchTerm1 categoryFilter1 unitPrices)
         ''Rebar Schedule''
     = map_of (synthesizeWorkbook cmp numStr data searchTerm2 categoryFilter2 unitPrices)
         ''Rebar Schedule''
   \<and> map_of (synthesizeWorkbook cmp numStr data searchTerm1 categoryFilter1 unitPrices)
         ''Rebar Schedule''
     = Some (rebarHeaders # map rebarRow (rebarItemsOrEmpty data))"
  by (simp add: synthesizeWorkbook_rebar_sheet render_def)

lemma example_group_counts:
  "length (v_groupedData (render codeCompare exampleData ''BEAM'' ''All'' Map.empty)) = 1
   \<and> length (v_groupedData (render codeCompare exampleData [] ''All'' Map.empty)) = 4
   \<and> map rb_id (v_filteredRebar (render codeCompare exampleData ''BEAM'' ''All'' Map.empty))
       = [''01'', ''02'']
   \<and> map rb_id (v_filteredRebar (render codeCompare exampleData ''Column'' ''All'' Map.empty))
       = [''03'']"
  by code_simp

text \<open>
  On the sample data the search term \<open>BEAM\<close> leaves one group of four, and the rebar
  records shown on screen follow the search term, while the summary and the Rebar
  Schedule sheet are those of the unfiltered render.
\<close>

theorem rebar_outputs_ignore_filters_witness:
  "length (v_groupedData (render codeCompare exampleData ''BEAM'' ''All'' Map.empty)) = 1
   \<and> length (v_groupedData (render codeCompare exampleData [] ''All'' Map.empty)) = 4
   \<and> v_rebarSummary (render codeCompare exampleData ''BEAM'' ''All'' Map.empty)
       = v_rebarSummary (render codeCompare exampleData [] ''All'' Map.empty)
   \<and> map_of (synthesizeWorkbook codeCompare wholeStr exampleData ''BEAM'' ''All'' Map.empty)
         ''Rebar Schedule''
       = map_of (synthesizeWorkbook codeCompare wholeStr exampleData [] ''All'' Map.empty)
         ''Rebar Schedule''"
  using rebar_outputs_ignore_filters
    [of codeCompare exampleData "''BEAM''" "''All''" Map.empty "[]" "''All''" wholeStr]
    example_group_counts
  by blast

subsection \<open>Numeric tokens of a dimension expression\<close>

lemma digit_not_sign: "isDigit c \<Longrightarrow> \<not> isSign c"
  by (auto simp: isDigit_def isSign_def)

lemma point_not_digit: "\<not> isDigit CHR ''.''"
  by (simp add: isDigit_def)

lemma matchUnsigned_Some:
  assumes "matchUnsigned s = Some m"
  shows "prefix m s \<and> unsignedToken m \<and> m \<noteq> [] \<and> \<not> isSign (hd m)"
proof -
  let ?ip = "takeWhile isDigit s"
  let ?rest = "dropWhile isDigit s"
  let ?fp = "takeWhile isDigit (tl ?rest)"
  have digits: "\<And>c. c \<in> set ?ip \<Longrightarrow> isDigit c"
    by (rule set_takeWhileD [THEN conjunct2])
  show ?thesis
  proof (cases "?rest \<noteq> [] \<and> hd ?rest = CHR ''.'' \<and> ?fp \<noteq> []")
    case True
    with assms have m: "m = ?ip @ ''.'' @ ?fp"
      by (simp add: matchUnsigned_def Let_def)
    from True have rest: "?rest = CHR ''.'' # tl ?rest"
      by (metis list.collapse)
    have "s = ?ip @ ?rest" by simp
    also have "\<dots> = ?ip @ CHR ''.'' # (?fp @ dropWhile isDigit (tl ?rest))"
      using rest by simp
    finally have "s = m @ dropWhile isDigit (tl ?rest)"
      using m by simp
    then have p: "prefix m s" by (metis prefixI)
    have "dropWhile isDigit m = CHR ''.'' # ?fp"
      unfolding m using digits by (simp add: dropWhile_append2 point_not_digit)
    moreover have "list_all isDigit ?fp"
      by (simp add: list_all_iff) (metis set_takeWhileD)
    ultimately have u: "unsignedToken m"
      using True by (simp add: unsignedToken_def)
    have "hd m = (if ?ip = [] then CHR ''.'' else hd ?ip)"
      unfolding m by (simp add: hd_append)
    moreover have "isDigit (hd ?ip)" if "?ip \<noteq> []"
      using that digits by (metis hd_in_set)
    ultimately have "\<not> isSign (hd m)"
      using digit_not_sign by (auto simp: isSign_def)
    with p u m show ?thesis by simp
  next
    case False
    with assms have m: "m = ?ip" and ne: "?ip \<noteq> []"
      by (auto simp: matchUnsigned_def Let_def split: if_splits)
    have p: "prefix m s"
      unfolding m by (metis prefixI takeWhile_dropWhile_id)
    have "dropWhile isDigit m = []"
      unfolding m using digits by (simp add: dropWhile_eq_Nil_conv)
    with ne m have u: "unsignedToken m"
      by (simp add: unsignedToken_def)
    have "isDigit (hd m)"
      unfolding m using ne digits by (metis hd_in_set)
    with p u ne m show ?thesis
      using digit_not_sign by simp
  qed
qed

lemma matchHere_Some:
  assumes "matchHere s = Some m"
  shows "prefix m s \<and> numericToken m"
proof (cases "s \<noteq> [] \<and> isSign (hd s) \<and> matchUnsigned (tl s) \<noteq> None")
  case True
  then obtain m' where m': "matchUnsigned (tl s) = Some m'" by auto
  with True assms have m: "m = hd s # m'"
    by (simp add: matchHere_def)
  from m' have "prefix m' (tl s)" and "unsignedToken m'"
    using matchUnsigned_Some by blast+
  moreover from True have "s = hd s # tl s" by simp
  ultimately show ?thesis
    using True m by (metis Cons_prefix_Cons list.sel(1,3) list.discI numericToken_def)
next
  case False
  with assms have "matchUnsigned s = Some m"
    by (auto simp: matchHere_def split: if_splits option.splits)
  then have "prefix m s" "unsignedToken m" "m \<noteq> []" "\<not> isSign (hd m)"
    using matchUnsigned_Some by blast+
  then show ?thesis by (simp add: numericToken_def)
qed

lemma firstMatch_Some: "firstMatch s = Some m \<Longrightarrow> sublist m s \<and> numericToken m"
proof (induction s)
  case Nil
  then show ?case using matchHere_Some [of "[]" m] by auto
next
  case (Cons c cs)
  show ?case
  proof (cases "matchHere (c # cs)")
    case None
    with Cons show ?thesis by (auto simp: sublist_Cons_right)
  next
    case (Some m')
    with Cons.prems have "matchHere (c # cs) = Some m" by simp
    then show ?thesis
      using matchHere_Some by (blast intro: prefix_imp_sublist)
  qed
qed

lemma unsignedToken_has_digit: "unsignedToken u \<Longrightarrow> \<exists>c\<in>set u. isDigit c"
proof -
  assume u: "unsignedToken u"
  let ?rest = "dropWhile isDigit u"
  show ?thesis
  proof (cases "?rest = []")
    case True
    with u have "u \<noteq> []" by (simp add: unsignedToken_def)
    moreover from True have "\<forall>c\<in>set u. isDigit c"
      by (simp add: dropWhile_eq_Nil_conv)
    ultimately show ?thesis by (metis hd_in_set)
  next
    case False
    with u have "tl ?rest \<noteq> []" and "list_all isDigit (tl ?rest)"
      unfolding unsignedToken_def Let_def by blast+
    then obtain c where "c \<in> set (tl ?rest)" and "isDigit c"
      by (metis hd_in_set list_all_iff)
    then have "c \<in> set u"
      by (metis list.set_sel(2) set_dropWhileD tl_Nil)
    with \<open>isDigit c\<close> show ?thesis by blast
  qed
qed

lemma numericToken_has_digit: "numericToken w \<Longrightarrow> \<exists>c\<in>set w. isDigit c"
proof -
  assume "numericToken w"
  then consider "unsignedToken w" | "w \<noteq> []" "unsignedToken (tl w)"
    by (auto simp: numericToken_def split: if_splits)
  then show ?thesis
  proof cases
    case 1
    then show ?thesis by (rule unsignedToken_has_digit)
  next
    case 2
    then obtain c where "c \<in> set (tl w)" "isDigit c"
      using unsignedToken_has_digit by blast
    with 2 show ?thesis by (metis list.set_sel(2))
  qed
qed

lemma matchHere_digit: "isDigit c \<Longrightarrow> matchHere (c # cs) \<noteq> None"
proof -
  assume d: "isDigit c"
  then have "takeWhile isDigit (c # cs) \<noteq> []" by simp
  then have "matchUnsigned (c # cs) \<noteq> None"
    by (simp add: matchUnsigned_def Let_def)
  with d show ?thesis
    by (simp add: matchHere_def digit_not_sign)
qed

lemma firstMatch_digit: "\<exists>c\<in>set s. isDigit c \<Longrightarrow> firstMatch s \<noteq> None"
proof (induction s)
  case Nil
  then show ?case by simp
next
  case (Cons c cs)
  show ?case
  proof (cases "matchHere (c # cs)")
    case (Some m)
    then show ?thesis by simp
  next
    case None
    then have "\<not> isDigit c" using matchHere_digit by blast
    with Cons.prems have "\<exists>c\<in>set cs. isDigit c" by simp
    then have "firstMatch cs \<noteq> None" by (rule Cons.IH)
    with None show ?thesis by simp
  qed
qed

text \<open>
  A segment has a match of the pattern exactly when it has a substring in the language
  of the pattern, which is exactly when it has a digit.
\<close>

lemma token_iff_digit:
  "(\<exists>w. sublist w seg \<and> numericToken w) \<longleftrightarrow> (\<exists>c\<in>set seg. isDigit c)"
proof
  assume "\<exists>w. sublist w seg \<and> numericToken w"
  then obtain w c where "sublist w seg" "c \<in> set w" "isDigit c"
    using numericToken_has_digit by blast
  then show "\<exists>c\<in>set seg. isDigit c"
    by (meson set_mono_sublist subsetD)
next
  assume "\<exists>c\<in>set seg. isDigit c"
  then have "firstMatch seg \<noteq> None" by (rule firstMatch_digit)
  then show "\<exists>w. sublist w seg \<and> numericToken w"
    using firstMatch_Some by blast
qed

lemma firstMatch_None_iff:
  "firstMatch seg = None \<longleftrightarrow> \<not> (\<exists>w. sublist w seg \<and> numericToken w)"
  using firstMatch_Some [of seg] firstMatch_digit [of seg] token_iff_digit [of seg]
  by (cases "firstMatch seg") auto

lemma sanitizeLoop_map_filter:
  "sanitizeLoop acc parts = acc @ List.map_filter firstMatch parts"
  by (induction parts arbitrary: acc) (auto simp: map_filter_simps split: option.splits)

lemma sanitizedPartsOf_tokens:
  "sanitizedPartsOf expr = List.map_filter firstMatch (splitDim expr)"
  by (simp add: sanitizedPartsOf_def sanitizeLoop_map_filter)

lemma sanitizedPartsOf_empty_iff:
  "sanitizedPartsOf expr = []
     \<longleftrightarrow> (\<forall>seg\<in>set (splitDim expr). \<not> (\<exists>w. sublist w seg \<and> numericToken w))"
  by (simp add: sanitizedPartsOf_tokens map_filter_def filter_empty_conv firstMatch_None_iff)

lemma sanitizedPartsOf_numeric: "list_all numericToken (sanitizedPartsOf expr)"
  unfolding sanitizedPartsOf_tokens map_filter_def list_all_iff
  using firstMatch_Some by auto

text \<open>
  C3 (as the code has it). For a dimension expression in which at least one segment
  (after splitting on \<open>x\<close>, \<open>X\<close> or \<open>*\<close>) has a substring matching the signed-decimal
  pattern, every multiplier \<open>m\<close> and every precomputed quantity \<open>q\<close>, the quantity cell
  is a formula cell with cached value \<open>q\<close>; its formula is the multiplier followed by
  \<open>*\<close> exactly when \<open>m\<close> is neither 1 nor 0 (a multiplier 0 is taken as 1), then the
  first match of each segment that has one, in the order of the segments, joined by
  \<open>*\<close>; each of these is a numeric token of the pattern.
\<close>

theorem quantityCell_formula:
  assumes "\<exists>seg\<in>set (splitDim expr). \<exists>w. sublist w seg \<and> numericToken w"
  shows "quantityCell numStr m expr q
           = Obj (Some ((if m \<noteq> 1 \<and> m \<noteq> 0 then numStr m @ ''*'' else [])
                        @ joinStr ''*'' (List.map_filter firstMatch (splitDim expr))))
                 (Some q)
         \<and> List.map_filter firstMatch (splitDim expr) \<noteq> []
         \<and> list_all numericToken (List.map_filter firstMatch (splitDim expr))"
proof -
  from assms have ne: "sanitizedPartsOf expr \<noteq> []"
    by (simp add: sanitizedPartsOf_empty_iff)
  then have "quantityCell numStr m expr q
           = Obj (Some ((if m \<noteq> 1 \<and> m \<noteq> 0 then numStr m @ ''*'' else [])
                        @ joinStr ''*'' (sanitizedPartsOf expr)))
                 (Some q)"
    by (simp add: quantityCell_def Let_def orDefault_def)
  with ne sanitizedPartsOf_numeric [of expr] show ?thesis
    by (simp add: sanitizedPartsOf_tokens)
qed

lemma example_tokens:
  "List.map_filter firstMatch (splitDim ''15.00 x 0.60 x 1.20'') = [''15.00'', ''0.60'', ''1.20'']
   \<and> List.map_filter firstMatch (splitDim ''(4.0+5.0) x 3m'') = [''4.0'', ''3'']
   \<and> List.map_filter firstMatch (splitDim ''-.5 * 2.'') = [''-.5'', ''2'']"
  by code_simp

theorem quantityCell_formula_witness:
  "quantityCell wholeStr 1 ''15.00 x 0.60 x 1.20'' 10.8 = Obj (Some ''15.00*0.60*1.20'') (Some 10.8)
   \<and> quantityCell wholeStr 2 ''15.00 x 0.60 x 1.20'' 21.6
       = Obj (Some ''2*15.00*0.60*1.20'') (Some 21.6)"
proof -
  have "\<exists>c\<in>set '' 0.60 ''. isDigit c"
    by (simp add: isDigit_def)
  then have "\<exists>w. sublist w '' 0.60 '' \<and> numericToken w"
    by (simp add: token_iff_digit)
  moreover have "'' 0.60 '' \<in> set (splitDim ''15.00 x 0.60 x 1.20'')"
    by (simp add: splitDim_def)
  ultimately have h: "\<exists>seg\<in>set (splitDim ''15.00 x 0.60 x 1.20'').
                        \<exists>w. sublist w seg \<and> numericToken w"
    by blast
  have two: "wholeStr 2 = ''2''"
    by (simp add: wholeStr_def decimal.simps)
  show ?thesis
    using quantityCell_formula [OF h, of wholeStr 1 "10.8"]
      quantityCell_formula [OF h, of wholeStr 2 "21.6"]
    by (simp add: example_tokens two)
qed

text \<open>
  C3 as stated fails for the multiplier 0, which differs from 1: the code takes it as 1
  and the formula has no multiplier in front.
\<close>

theorem quantityCell_zero_multiplier_counterexample:
  "quantityCell wholeStr 0 ''2 x 3'' 6 = Obj (Some ''2*3'') (Some 6)
   \<and> wholeStr 0 @ ''*'' @ ''2*3'' = ''0*2*3''"
  by code_simp

text \<open>
  C4. For a dimension expression in which no segment (after splitting on \<open>x\<close>, \<open>X\<close> or
  \<open>*\<close>) has a substring matching the signed-decimal pattern, the quantity cell, which
  is the fourth cell of the value row the item emits into the Dim Sheet, carries the
  item's precomputed quantity as a plain value with no formula.
\<close>

theorem quantityCell_fallback:
  assumes "\<forall>seg\<in>set (splitDim (dimension item)). \<not> (\<exists>w. sublist w seg \<and> numericToken w)"
  shows "quantityCell numStr (timesing item) (dimension item) (quantity item)
           = Obj None (Some (quantity item))
         \<and> last (dimRows (emitItem numStr st item)) ! 3 = Obj None (Some (quantity item))"
proof -
  from assms have "sanitizedPartsOf (dimension item) = []"
    by (simp add: sanitizedPartsOf_empty_iff)
  then have "quantityCell numStr (timesing item) (dimension item) (quantity item)
           = Obj None (Some (quantity item))"
    by (simp add: quantityCell_def)
  then show ?thesis
    by (simp add: emitItem_def Let_def pushRow_def incRowIdx_def)
qed

text \<open>Whatever the dimension expression, the quantity cell has the quantity as value.\<close>

lemma quantityCell_value: "cell_v (quantityCell numStr m expr q) = Some q"
  by (simp add: quantityCell_def Let_def)

theorem quantityCell_fallback_witness:
  "quantityCell wholeStr 1 ''-'' 5 = Obj None (Some 5)
   \<and> quantityCell wholeStr 3 [] 7 = Obj None (Some 7)"
proof -
  have dash: "\<forall>seg\<in>set (splitDim (dimension (memberOf (mkItem ''Paint'' 1 ''-'' 5 ''m2'' ''Painting'')))).
            \<not> (\<exists>w. sublist w seg \<and> numericToken w)"
    by (simp add: token_iff_digit memberOf_def withAxis_def takeoff_item.defs member_item.defs
        mkItem_def splitDim_def isDigit_def)
  have empty: "\<forall>seg\<in>set (splitDim (dimension (memberOf (mkItem ''Paint'' 3 [] 7 ''m2'' ''Painting'')))).
            \<not> (\<exists>w. sublist w seg \<and> numericToken w)"
    by (simp add: memberOf_def withAxis_def takeoff_item.defs member_item.defs
        mkItem_def splitDim_def numericToken_def unsignedToken_def)
  show ?thesis
    using quantityCell_fallback [OF dash, of wholeStr] quantityCell_fallback [OF empty, of wholeStr]
    by (simp add: memberOf_def withAxis_def takeoff_item.defs member_item.defs mkItem_def)
qed

subsection \<open>Cell addresses\<close>

lemma decimal_nonempty: "decimal n \<noteq> []"
  by (subst decimal.simps) simp

lemma digit_chars_inj:
  "a < 10 \<Longrightarrow> b < 10 \<Longrightarrow> ''0123456789'' ! a = ''0123456789'' ! b \<Longrightarrow> a = b"
proof -
  have "distinct ''0123456789''" by simp
  moreover have "length ''0123456789'' = 10" by simp
  ultimately show "a < 10 \<Longrightarrow> b < 10 \<Longrightarrow> ''0123456789'' ! a = ''0123456789'' ! b \<Longrightarrow> a = b"
    by (metis nth_eq_iff_index_eq)
qed

lemma decimal_inj: "decimal m = decimal n \<Longrightarrow> m = n"
proof (induction m arbitrary: n rule: decimal.induct)
  case (1 m)
  show ?case
  proof (cases "m < 10")
    case True
    then have dm: "decimal m = [''0123456789'' ! m]" by (subst decimal.simps) simp
    show ?thesis
    proof (cases "n < 10")
      case nlt: True
      then have "decimal n = [''0123456789'' ! n]" by (subst decimal.simps) simp
      with dm "1.prems" True nlt show ?thesis using digit_chars_inj by simp
    next
      case False
      then have "decimal n = decimal (n div 10) @ [''0123456789'' ! (n mod 10)]"
        by (subst decimal.simps) simp
      with dm "1.prems" decimal_nonempty [of "n div 10"] show ?thesis by simp
    qed
  next
    case False
    then have dm: "decimal m = decimal (m div 10) @ [''0123456789'' ! (m mod 10)]"
      by (subst decimal.simps) simp
    show ?thesis
    proof (cases "n < 10")
      case True
      then have "decimal n = [''0123456789'' ! n]" by (subst decimal.simps) simp
      with dm "1.prems" decimal_nonempty [of "m div 10"] show ?thesis by simp
    next
      case nge: False
      then have "decimal n = decimal (n div 10) @ [''0123456789'' ! (n mod 10)]"
        by (subst decimal.simps) simp
      with dm "1.prems" have eq: "decimal (m div 10) = decimal (n div 10)"
        and last: "''0123456789'' ! (m mod 10) = ''0123456789'' ! (n mod 10)"
        by simp_all
      from eq False have "m div 10 = n div 10" by (rule "1.IH" [rotated])
      moreover from last have "m mod 10 = n mod 10"
        using digit_chars_inj [of "m mod 10" "n mod 10"] by simp
      ultimately show ?thesis by (metis div_mult_mod_eq)
    qed
  qed
qed

lemma encode_cell_D: "encode_cell r 3 = ''D'' @ decimal (Suc r)"
  by (simp add: encode_cell_def encodeColLoop.simps)

lemma sheetRef_text: "sheetRef r = [CHR 0x27] @ ''Dim Sheet'' @ [CHR 0x27] @ ''!D'' @ decimal (Suc r)"
  by (simp add: sheetRef_def encode_cell_D)

lemma sheetRef_inj: "sheetRef r = sheetRef r' \<Longrightarrow> r = r'"
  using decimal_inj [of "Suc r" "Suc r'"] by (simp add: sheetRef_text)

lemma sheetRef_nonempty: "sheetRef r \<noteq> []"
  by (simp add: sheetRef_text)

subsection \<open>Emission of the Dim Sheet\<close>

lemma emitItem_fields:
  "groupAddressMap (emitItem numStr st item) = groupAddressMap st"
  "lastCat (emitItem numStr st item) = lastCat st"
  "currentRowIdx (emitItem numStr st item) = currentRowIdx st + 2"
  "\<exists>new. dimRows (emitItem numStr st item) = dimRows st @ new \<and> length new = 2"
  by (simp_all add: emitItem_def Let_def pushRow_def incRowIdx_def)

lemma foldl_emitItem_fields:
  "groupAddressMap (foldl (emitItem numStr) st its) = groupAddressMap st
   \<and> lastCat (foldl (emitItem numStr) st its) = lastCat st
   \<and> currentRowIdx (foldl (emitItem numStr) st its) = currentRowIdx st + 2 * length its
   \<and> (\<exists>new. dimRows (foldl (emitItem numStr) st its) = dimRows st @ new
              \<and> length new = 2 * length its)"
proof (induction its arbitrary: st)
  case Nil
  then show ?case by simp
next
  case (Cons it its)
  obtain new1 where n1: "dimRows (emitItem numStr st it) = dimRows st @ new1" "length new1 = 2"
    using emitItem_fields(4) by blast
  obtain new2 where n2:
    "dimRows (foldl (emitItem numStr) (emitItem numStr st it) its)
       = dimRows (emitItem numStr st it) @ new2" "length new2 = 2 * length its"
    using Cons.IH [of "emitItem numStr st it"] by blast
  from n1 n2 have "dimRows (foldl (emitItem numStr) st (it # its)) = dimRows st @ (new1 @ new2)
      \<and> length (new1 @ new2) = 2 * length (it # its)"
    by simp
  then have "\<exists>new. dimRows (foldl (emitItem numStr) st (it # its)) = dimRows st @ new
      \<and> length new = 2 * length (it # its)"
    by blast
  then show ?case
    using Cons.IH [of "emitItem numStr st it"] by (simp add: emitItem_fields)
qed

text \<open>
  One group: rows are appended to the sheet, the last two being the subtotal row and
  the spacer, and the address recorded is that of the row counter when the subtotal row
  is pushed.
\<close>

lemma emitGroup_effect:
  "\<exists>mid. dimRows (emitGroup numStr st g) = dimRows st @ mid @ [subtotalRow g, []]
         \<and> currentRowIdx (emitGroup numStr st g) = currentRowIdx st + length mid + 2
         \<and> groupAddressMap (emitGroup numStr st g)
             = objSet (groupAddressMap st) (g_name g) (sheetRef (currentRowIdx st + length mid))"
proof -
  define st1 where "st1 =
     (if g_category g \<noteq> lastCat st
      then incRowIdx ((pushRow [Str [], Str (toUpperCase (g_category g)), Str [], Str []] st)
                        \<lparr>lastCat := g_category g\<rparr>)
      else st)"
  define st2 where "st2 = incRowIdx (pushRow [Str [], Str (g_name g), Str [], Str []] st1)"
  define st3 where "st3 = foldl (emitItem numStr) st2 (g_items g)"
  have out: "emitGroup numStr st g =
      incRowIdx (pushRow []
        (incRowIdx ((pushRow (subtotalRow g) st3)
           \<lparr>groupAddressMap := objSet (groupAddressMap (pushRow (subtotalRow g) st3))
               (g_name g) (sheetRef (currentRowIdx (pushRow (subtotalRow g) st3)))\<rparr>)))"
    by (simp add: emitGroup_def Let_def st1_def st2_def st3_def)
  obtain m1 where m1: "dimRows st1 = dimRows st @ m1"
      "currentRowIdx st1 = currentRowIdx st + length m1" "groupAddressMap st1 = groupAddressMap st"
    by (cases "g_category g \<noteq> lastCat st") (auto simp: st1_def pushRow_def incRowIdx_def)
  have m2: "dimRows st2 = dimRows st1 @ [[Str [], Str (g_name g), Str [], Str []]]"
      "currentRowIdx st2 = currentRowIdx st1 + 1" "groupAddressMap st2 = groupAddressMap st1"
    by (simp_all add: st2_def pushRow_def incRowIdx_def)
  obtain m3 where m3: "dimRows st3 = dimRows st2 @ m3" "length m3 = 2 * length (g_items g)"
    using foldl_emitItem_fields [of numStr st2 "g_items g"] unfolding st3_def by blast
  have f3: "currentRowIdx st3 = currentRowIdx st2 + 2 * length (g_items g)"
      "groupAddressMap st3 = groupAddressMap st2"
    using foldl_emitItem_fields [of numStr st2 "g_items g"] unfolding st3_def by simp_all
  let ?mid = "m1 @ [[Str [], Str (g_name g), Str [], Str []]] @ m3"
  have rows: "dimRows st3 = dimRows st @ ?mid"
    using m1 m2 m3 by simp
  have idx: "currentRowIdx st3 = currentRowIdx st + length ?mid"
    using m1 m2 m3 f3 by simp
  have amap: "groupAddressMap st3 = groupAddressMap st"
    using m1 m2 f3 by simp
  have "dimRows (emitGroup numStr st g) = dimRows st @ ?mid @ [subtotalRow g, []]
         \<and> currentRowIdx (emitGroup numStr st g) = currentRowIdx st + length ?mid + 2
         \<and> groupAddressMap (emitGroup numStr st g)
             = objSet (groupAddressMap st) (g_name g) (sheetRef (currentRowIdx st + length ?mid))"
    unfolding out using rows idx amap by (simp add: pushRow_def incRowIdx_def)
  then show ?thesis by blast
qed

lemma emitGroup_rowsInv:
  assumes "rowsInv st"
  shows "\<exists>pre. prefix (dimRows st) pre
           \<and> dimRows (emitGroup numStr st g) = pre @ [subtotalRow g, []]
           \<and> groupAddressMap (emitGroup numStr st g)
               = (if g_name g = ''__proto__'' then groupAddressMap st
                  else (groupAddressMap st)(g_name g \<mapsto> sheetRef (length pre)))
           \<and> rowsInv (emitGroup numStr st g)"
proof -
  obtain mid where mid:
    "dimRows (emitGroup numStr st g) = dimRows st @ mid @ [subtotalRow g, []]"
    "currentRowIdx (emitGroup numStr st g) = currentRowIdx st + length mid + 2"
    "groupAddressMap (emitGroup numStr st g)
       = objSet (groupAddressMap st) (g_name g) (sheetRef (currentRowIdx st + length mid))"
    using emitGroup_effect [of numStr st g] by blast
  let ?pre = "dimRows st @ mid"
  from assms mid have "prefix (dimRows st) ?pre
           \<and> dimRows (emitGroup numStr st g) = ?pre @ [subtotalRow g, []]
           \<and> groupAddressMap (emitGroup numStr st g)
               = (if g_name g = ''__proto__'' then groupAddressMap st
                  else (groupAddressMap st)(g_name g \<mapsto> sheetRef (length ?pre)))
           \<and> rowsInv (emitGroup numStr st g)"
    by (simp add: rowsInv_def objSet_def)
  then show ?thesis by blast
qed

lemma foldl_emitGroup_effect:
  assumes "rowsInv st"
  shows "rowsInv (foldl (emitGroup numStr) st gs)
         \<and> prefix (dimRows st) (dimRows (foldl (emitGroup numStr) st gs))
         \<and> (nm \<notin> g_name ` set gs
              \<longrightarrow> groupAddressMap (foldl (emitGroup numStr) st gs) nm = groupAddressMap st nm)"
  using assms
proof (induction gs arbitrary: st)
  case Nil
  then show ?case by simp
next
  case (Cons g gs)
  obtain pre where pre: "prefix (dimRows st) pre"
      "dimRows (emitGroup numStr st g) = pre @ [subtotalRow g, []]"
      "groupAddressMap (emitGroup numStr st g)
         = (if g_name g = ''__proto__'' then groupAddressMap st
            else (groupAddressMap st)(g_name g \<mapsto> sheetRef (length pre)))"
      "rowsInv (emitGroup numStr st g)"
    using emitGroup_rowsInv [OF Cons.prems, where numStr = numStr and g = g] by blast
  from pre(1,2) have "prefix (dimRows st) (dimRows (emitGroup numStr st g))"
    by (metis prefix_order.trans prefixI)
  with Cons.IH [OF pre(4)] pre(3) show ?case
    by (auto intro: prefix_order.trans)
qed

lemma rowsInv_initial: "rowsInv initialDimState"
  by (simp add: rowsInv_def initialDimState_def)

lemma emitDimSheet_snoc:
  "emitDimSheet numStr (gs @ [g]) = emitGroup numStr (emitDimSheet numStr gs) g"
  by (simp add: emitDimSheet_def)

lemma emitDimSheet_rowsInv: "rowsInv (emitDimSheet numStr gs)"
  using foldl_emitGroup_effect [OF rowsInv_initial, where numStr = numStr and gs = gs]
  by (simp add: emitDimSheet_def)

lemma emitDimSheet_append:
  "emitDimSheet numStr (gs @ hs) = foldl (emitGroup numStr) (emitDimSheet numStr gs) hs"
  by (simp add: emitDimSheet_def)

text \<open>The state when the emission of the \<open>j\<close>-th group ends.\<close>

lemma emitDimSheet_at_group:
  assumes "j < length gs"
  shows "\<exists>pre. prefix (dimRows (emitDimSheet numStr (take j gs))) pre
           \<and> dimRows (emitDimSheet numStr (take (Suc j) gs)) = pre @ [subtotalRow (gs ! j), []]
           \<and> groupAddressMap (emitDimSheet numStr (take (Suc j) gs)) (g_name (gs ! j))
               = (if g_name (gs ! j) = ''__proto__'' then None
                  else Some (sheetRef (length pre)))
           \<and> subtotalIndex numStr gs j = length pre"
proof -
  from assms have tk: "take (Suc j) gs = take j gs @ [gs ! j]"
    by (rule take_Suc_conv_app_nth)
  obtain pre where pre: "prefix (dimRows (emitDimSheet numStr (take j gs))) pre"
      "dimRows (emitGroup numStr (emitDimSheet numStr (take j gs)) (gs ! j))
         = pre @ [subtotalRow (gs ! j), []]"
      "groupAddressMap (emitGroup numStr (emitDimSheet numStr (take j gs)) (gs ! j))
         = (if g_name (gs ! j) = ''__proto__''
            then groupAddressMap (emitDimSheet numStr (take j gs))
            else (groupAddressMap (emitDimSheet numStr (take j gs)))
                   (g_name (gs ! j) \<mapsto> sheetRef (length pre)))"
    using emitGroup_rowsInv [where st = "emitDimSheet numStr (take j gs)" and numStr = numStr
        and g = "gs ! j", OF emitDimSheet_rowsInv] by blast
  moreover have "groupAddressMap (emitDimSheet numStr (take j gs)) ''__proto__'' = None"
    using emitDimSheet_rowsInv [of numStr "take j gs"] by (simp add: rowsInv_def)
  ultimately have "prefix (dimRows (emitDimSheet numStr (take j gs))) pre
           \<and> dimRows (emitDimSheet numStr (take (Suc j) gs)) = pre @ [subtotalRow (gs ! j), []]
           \<and> groupAddressMap (emitDimSheet numStr (take (Suc j) gs)) (g_name (gs ! j))
               = (if g_name (gs ! j) = ''__proto__'' then None
                  else Some (sheetRef (length pre)))
           \<and> subtotalIndex numStr gs j = length pre"
    by (simp add: tk emitDimSheet_snoc subtotalIndex_def)
  then show ?thesis by blast
qed

lemma emitDimSheet_rows_stay:
  "prefix (dimRows (emitDimSheet numStr (take k gs))) (dimRows (emitDimSheet numStr gs))"
proof -
  have "emitDimSheet numStr gs
          = foldl (emitGroup numStr) (emitDimSheet numStr (take k gs)) (drop k gs)"
    by (metis append_take_drop_id emitDimSheet_append)
  then show ?thesis
    using foldl_emitGroup_effect [where st = "emitDimSheet numStr (take k gs)" and numStr = numStr
        and gs = "drop k gs", OF emitDimSheet_rowsInv]
    by simp
qed

lemma emitDimSheet_last_of_name:
  assumes j: "j < length gs"
    and last: "\<And>k. j < k \<Longrightarrow> k < length gs \<Longrightarrow> g_name (gs ! k) \<noteq> g_name (gs ! j)"
  shows "groupAddressMap (emitDimSheet numStr gs) (g_name (gs ! j))
           = (if g_name (gs ! j) = ''__proto__'' then None
              else Some (sheetRef (subtotalIndex numStr gs j)))"
proof -
  have "g_name (gs ! j) \<notin> g_name ` set (drop (Suc j) gs)"
  proof
    assume "g_name (gs ! j) \<in> g_name ` set (drop (Suc j) gs)"
    then obtain i where "i < length (drop (Suc j) gs)"
        and "g_name (drop (Suc j) gs ! i) = g_name (gs ! j)"
      by (metis (no_types, lifting) image_iff in_set_conv_nth)
    then have "Suc j + i < length gs" and "g_name (gs ! (Suc j + i)) = g_name (gs ! j)"
      by simp_all
    with last [of "Suc j + i"] show False by simp
  qed
  moreover have "emitDimSheet numStr gs
          = foldl (emitGroup numStr) (emitDimSheet numStr (take (Suc j) gs)) (drop (Suc j) gs)"
    by (metis append_take_drop_id emitDimSheet_append)
  ultimately have "groupAddressMap (emitDimSheet numStr gs) (g_name (gs ! j))
      = groupAddressMap (emitDimSheet numStr (take (Suc j) gs)) (g_name (gs ! j))"
    using foldl_emitGroup_effect [where st = "emitDimSheet numStr (take (Suc j) gs)"
        and numStr = numStr and gs = "drop (Suc j) gs" and nm = "g_name (gs ! j)",
        OF emitDimSheet_rowsInv]
    by simp
  with emitDimSheet_at_group [OF j, of numStr] show ?thesis by auto
qed

lemma last_of_name_exists:
  assumes "j < length gs"
  shows "\<exists>k<length gs. g_name (gs ! k) = g_name (gs ! j)
           \<and> (\<forall>k'. k < k' \<and> k' < length gs \<longrightarrow> g_name (gs ! k') \<noteq> g_name (gs ! k))"
proof -
  let ?P = "\<lambda>k. k < length gs \<and> g_name (gs ! k) = g_name (gs ! j)"
  have "?P j" using assms by simp
  moreover have "\<forall>y. ?P y \<longrightarrow> y \<le> length gs" by simp
  ultimately obtain k where k: "?P k" "\<forall>y. ?P y \<longrightarrow> y \<le> k"
    using Nat.ex_has_greatest_nat [where P = ?P and k = j and b = "length gs"] by blast
  then have "\<forall>k'. k < k' \<and> k' < length gs \<longrightarrow> g_name (gs ! k') \<noteq> g_name (gs ! k)"
    by (metis not_less)
  with k(1) show ?thesis by blast
qed

subsection \<open>Emission of the Bill of Quantities\<close>

lemma foldl_boqGroupRow_rows:
  "\<exists>new. boqRows (foldl (boqGroupRow am up) st gs) = boqRows st @ new
         \<and> map (\<lambda>r. r ! 2) new = map (boqQtyCell am) gs"
proof (induction gs arbitrary: st)
  case Nil
  then show ?case by simp
next
  case (Cons g gs)
  let ?st = "boqGroupRow am up st g"
  obtain row where row: "boqRows ?st = boqRows st @ [row]" "row ! 2 = boqQtyCell am g"
    by (simp add: boqGroupRow_def Let_def)
  obtain new where new: "boqRows (foldl (boqGroupRow am up) ?st gs) = boqRows ?st @ new"
      "map (\<lambda>r. r ! 2) new = map (boqQtyCell am) gs"
    using Cons.IH [of ?st] by blast
  from row new have "boqRows (foldl (boqGroupRow am up) st (g # gs)) = boqRows st @ (row # new)
         \<and> map (\<lambda>r. r ! 2) (row # new) = map (boqQtyCell am) (g # gs)"
    by simp
  then show ?case by blast
qed

lemma foldl_boqRebarRow_rows:
  "prefix (boqRows st) (boqRows (foldl (boqRebarRow up) st rs))"
proof (induction rs arbitrary: st)
  case Nil
  then show ?case by simp
next
  case (Cons r rs)
  have "prefix (boqRows st) (boqRows (boqRebarRow up st r))"
    by (simp add: boqRebarRow_def Let_def)
  then show ?case
    using Cons.IH [of "boqRebarRow up st r"] by (auto intro: prefix_order.trans)
qed

lemma prefix_nth: "prefix xs ys \<Longrightarrow> i < length xs \<Longrightarrow> ys ! i = xs ! i"
  by (auto simp: prefix_def nth_append)

text \<open>The BOQ row of the \<open>j\<close>-th group is row \<open>j + 1\<close> of the sheet.\<close>

lemma emitBoq_group_row:
  assumes "j < length gs"
  shows "emitBoq am gs rebar up ! Suc j ! 2 = boqQtyCell am (gs ! j)"
proof -
  define st1 where "st1 = foldl (boqGroupRow am up) \<lparr>boqRows = [boqHeader], boqRowIndex = 1\<rparr> gs"
  define st1' where "st1' =
     \<lparr>boqRows = boqRows st1 @
        [[Str [], Str [], Str [], Str [], Str []],
         [Str ''REBAR SUMMARY'', Str [], Str [], Str [], Str []]],
      boqRowIndex = boqRowIndex st1 + 2\<rparr>"
  define st2 where "st2 = (if 0 < length rebar then foldl (boqRebarRow up) st1' rebar else st1)"
  obtain new where new: "boqRows st1 = boqHeader # new"
      "map (\<lambda>r. r ! 2) new = map (boqQtyCell am) gs"
    using foldl_boqGroupRow_rows [of am up "\<lparr>boqRows = [boqHeader], boqRowIndex = 1\<rparr>" gs]
    unfolding st1_def by auto
  from new(2) have len: "length new = length gs"
    by (metis length_map)
  from new(2) assms len have cell: "new ! j ! 2 = boqQtyCell am (gs ! j)"
    by (metis nth_map)
  have "prefix (boqRows st1) (boqRows st1')"
    by (simp add: st1'_def)
  moreover have "prefix (boqRows st1') (boqRows (foldl (boqRebarRow up) st1' rebar))"
    by (rule foldl_boqRebarRow_rows)
  ultimately have "prefix (boqRows st1) (boqRows st2)"
    by (auto simp: st2_def intro: prefix_order.trans)
  moreover have "prefix (boqRows st2) (emitBoq am gs rebar up)"
    by (simp add: emitBoq_def Let_def st2_def st1'_def st1_def)
  ultimately have "prefix (boqRows st1) (emitBoq am gs rebar up)"
    by (rule prefix_order.trans)
  then have "emitBoq am gs rebar up ! Suc j = boqRows st1 ! Suc j"
    using assms len new(1) by (intro prefix_nth) simp_all
  with new(1) cell show ?thesis by simp
qed

subsection \<open>Subtotal addresses\<close>

lemma boqQtyCell_recorded:
  "am (g_name g) = Some (sheetRef r) \<Longrightarrow> boqQtyCell am g = Obj (Some (sheetRef r)) None"
  by (simp add: boqQtyCell_def objGet_def createFormulaCell_def sheetRef_nonempty)

lemma boqQtyCell_proto:
  "g_name g = ''__proto__'' \<Longrightarrow> am ''__proto__'' = None
     \<Longrightarrow> boqQtyCell am g = ObjProtoF ''__proto__''"
  by (simp add: boqQtyCell_def objGet_def objectPrototypeMembers_def)

lemma emitDimSheet_no_proto: "groupAddressMap (emitDimSheet numStr gs) ''__proto__'' = None"
  using emitDimSheet_rowsInv [of numStr gs] by (simp add: rowsInv_def)

text \<open>
  What holds of the recorded addresses. In one export, for the \<open>j\<close>-th group of the
  grouped data, let \<open>r\<close> be the physical (0-based) row index at which the group's
  subtotal row is pushed into the Dim Sheet. The row \<open>r\<close> is pushed during the emission
  of that group and holds the group's subtotal row, then and in the finished sheet, and
  distinct rows have distinct addresses (\<open>sheetRef_inj\<close>). When the group is not named
  \<open>__proto__\<close>, the address recorded for the group at that moment is cell D of row \<open>r\<close> of
  the Dim Sheet (in A1 notation, \<open>D\<close> followed by \<open>r + 1\<close>); the entry the BOQ emission
  consults for the group is the address recorded for a group of the same name, and the
  quantity cell of the group's BOQ row is the formula cell \<^verbatim>\<open>{ t: 'n', f: address }\<close>
  of that address; when the group names are pairwise distinct it is the address of the
  group's own subtotal cell.
\<close>

lemma subtotal_address_own_name:
  assumes "j < length grouped" and own: "g_name (grouped ! j) \<noteq> ''__proto__''"
  shows
    "(let final = emitDimSheet numStr grouped;
          atEnd = emitDimSheet numStr (take (Suc j) grouped);
          r = subtotalIndex numStr grouped j;
          boq = emitBoq (groupAddressMap final) grouped rebar unitPrices
      in length (dimRows (emitDimSheet numStr (take j grouped))) \<le> r
         \<and> Suc (Suc r) = length (dimRows atEnd)
         \<and> dimRows atEnd ! r = subtotalRow (grouped ! j)
         \<and> groupAddressMap atEnd (g_name (grouped ! j)) = Some (sheetRef r)
         \<and> sheetRef r = [CHR 0x27] @ ''Dim Sheet'' @ [CHR 0x27] @ ''!D'' @ decimal (Suc r)
         \<and> dimRows final ! r = subtotalRow (grouped ! j)
         \<and> handleExport numStr data grouped rebar unitPrices
             = [(''Dim Sheet'', dimRows final), (''Rebar Schedule'', rebarRows data),
                (''Bill of Quantities'', boq)]
         \<and> (\<exists>k<length grouped. g_name (grouped ! k) = g_name (grouped ! j)
               \<and> groupAddressMap final (g_name (grouped ! j))
                   = Some (sheetRef (subtotalIndex numStr grouped k))
               \<and> boq ! Suc j ! 2 = Obj (Some (sheetRef (subtotalIndex numStr grouped k))) None)
         \<and> (distinct (map g_name grouped)
               \<longrightarrow> boq ! Suc j ! 2 = Obj (Some (sheetRef r)) None))"
proof -
  let ?final = "emitDimSheet numStr grouped"
  let ?atEnd = "emitDimSheet numStr (take (Suc j) grouped)"
  let ?r = "subtotalIndex numStr grouped j"
  let ?boq = "emitBoq (groupAddressMap ?final) grouped rebar unitPrices"
  obtain pre where pre: "prefix (dimRows (emitDimSheet numStr (take j grouped))) pre"
      "dimRows ?atEnd = pre @ [subtotalRow (grouped ! j), []]"
      "groupAddressMap ?atEnd (g_name (grouped ! j)) = Some (sheetRef (length pre))"
      "?r = length pre"
    using emitDimSheet_at_group [OF assms(1), of numStr] own by auto
  have c1: "length (dimRows (emitDimSheet numStr (take j grouped))) \<le> ?r"
    using pre(1,4) by (simp add: prefix_length_le)
  have c2: "Suc (Suc ?r) = length (dimRows ?atEnd)"
    using pre(2,4) by simp
  have c3: "dimRows ?atEnd ! ?r = subtotalRow (grouped ! j)"
    using pre(2,4) by simp
  have c4: "groupAddressMap ?atEnd (g_name (grouped ! j)) = Some (sheetRef ?r)"
    using pre(3,4) by simp
  have c5: "sheetRef ?r = [CHR 0x27] @ ''Dim Sheet'' @ [CHR 0x27] @ ''!D'' @ decimal (Suc ?r)"
    by (rule sheetRef_text)
  have "prefix (dimRows ?atEnd) (dimRows ?final)"
    by (rule emitDimSheet_rows_stay)
  moreover from c2 have "?r < length (dimRows ?atEnd)" by simp
  ultimately have "dimRows ?final ! ?r = dimRows ?atEnd ! ?r"
    by (rule prefix_nth)
  with c3 have c6: "dimRows ?final ! ?r = subtotalRow (grouped ! j)" by simp
  have c7: "handleExport numStr data grouped rebar unitPrices
             = [(''Dim Sheet'', dimRows ?final), (''Rebar Schedule'', rebarRows data),
                (''Bill of Quantities'', ?boq)]"
    by (simp add: handleExport_def Let_def)
  have row: "?boq ! Suc j ! 2 = boqQtyCell (groupAddressMap ?final) (grouped ! j)"
    using assms(1) by (rule emitBoq_group_row)
  obtain k where k: "k < length grouped" "g_name (grouped ! k) = g_name (grouped ! j)"
      "\<forall>k'. k < k' \<and> k' < length grouped \<longrightarrow> g_name (grouped ! k') \<noteq> g_name (grouped ! k)"
    using last_of_name_exists [OF assms(1)] by blast
  then have rec: "groupAddressMap ?final (g_name (grouped ! j))
      = Some (sheetRef (subtotalIndex numStr grouped k))"
    using emitDimSheet_last_of_name [of k grouped numStr] own by auto
  with row have "?boq ! Suc j ! 2 = Obj (Some (sheetRef (subtotalIndex numStr grouped k))) None"
    by (simp add: boqQtyCell_recorded)
  with k(1,2) rec have c8: "\<exists>k<length grouped. g_name (grouped ! k) = g_name (grouped ! j)
               \<and> groupAddressMap ?final (g_name (grouped ! j))
                   = Some (sheetRef (subtotalIndex numStr grouped k))
               \<and> ?boq ! Suc j ! 2 = Obj (Some (sheetRef (subtotalIndex numStr grouped k))) None"
    by blast
  have c9: "?boq ! Suc j ! 2 = Obj (Some (sheetRef ?r)) None"
    if d: "distinct (map g_name grouped)"
  proof -
    have "g_name (grouped ! k') \<noteq> g_name (grouped ! j)"
      if "j < k'" "k' < length grouped" for k'
    proof -
      from d that assms(1)
      have "(map g_name grouped ! k' = map g_name grouped ! j) = (k' = j)"
        by (intro nth_eq_iff_index_eq) simp_all
      with that assms(1) show ?thesis by simp
    qed
    then have "groupAddressMap ?final (g_name (grouped ! j)) = Some (sheetRef ?r)"
      using emitDimSheet_last_of_name [OF assms(1), of numStr] own by auto
    with row show ?thesis by (simp add: boqQtyCell_recorded)
  qed
  from c1 c2 c3 c4 c5 c6 c7 c8 c9 show ?thesis
    unfolding Let_def by blast
qed

text \<open>
  For a group named \<open>__proto__\<close> the subtotal row is pushed as for any group, but no
  address is recorded, at the end of the group's emission or later, and the quantity
  cell of the group's BOQ row holds the prototype object as its formula.
\<close>

lemma subtotal_address_proto:
  assumes "j < length grouped" and proto: "g_name (grouped ! j) = ''__proto__''"
  shows "dimRows (emitDimSheet numStr grouped) ! subtotalIndex numStr grouped j
           = subtotalRow (grouped ! j)
         \<and> groupAddressMap (emitDimSheet numStr (take (Suc j) grouped)) ''__proto__'' = None
         \<and> groupAddressMap (emitDimSheet numStr grouped) ''__proto__'' = None
         \<and> emitBoq (groupAddressMap (emitDimSheet numStr grouped)) grouped rebar unitPrices
             ! Suc j ! 2 = ObjProtoF ''__proto__''"
proof -
  let ?final = "emitDimSheet numStr grouped"
  let ?atEnd = "emitDimSheet numStr (take (Suc j) grouped)"
  let ?r = "subtotalIndex numStr grouped j"
  obtain pre where pre: "dimRows ?atEnd = pre @ [subtotalRow (grouped ! j), []]"
      "?r = length pre"
    using emitDimSheet_at_group [OF assms(1), of numStr] by blast
  have "prefix (dimRows ?atEnd) (dimRows ?final)"
    by (rule emitDimSheet_rows_stay)
  moreover from pre have "?r < length (dimRows ?atEnd)" by simp
  ultimately have "dimRows ?final ! ?r = dimRows ?atEnd ! ?r"
    by (rule prefix_nth)
  with pre have c1: "dimRows ?final ! ?r = subtotalRow (grouped ! j)" by simp
  have "emitBoq (groupAddressMap ?final) grouped rebar unitPrices ! Suc j ! 2
          = boqQtyCell (groupAddressMap ?final) (grouped ! j)"
    using assms(1) by (rule emitBoq_group_row)
  then have c4: "emitBoq (groupAddressMap ?final) grouped rebar unitPrices ! Suc j ! 2
          = ObjProtoF ''__proto__''"
    by (simp add: boqQtyCell_proto [OF proto] emitDimSheet_no_proto)
  from c1 c4 show ?thesis
    by (simp add: emitDimSheet_no_proto)
qed

lemma example_subtotal_index:
  "subtotalIndex wholeStr (groupedData codeCompare exampleData [] ''All'') 1 = 13
   \<and> decimal 14 = ''14''
   \<and> g_totalQuantity (groupedData codeCompare exampleData [] ''All'' ! 1) = 5"
  by code_simp

lemma example_subtotal_address:
  "emitBoq (groupAddressMap (emitDimSheet wholeStr (groupedData codeCompare exampleData [] ''All'')))
       (groupedData codeCompare exampleData [] ''All'') [] Map.empty ! 2 ! 2
     = Obj (Some ([CHR 0x27] @ ''Dim Sheet'' @ [CHR 0x27] @ ''!D14'')) None
   \<and> dimRows (emitDimSheet wholeStr (groupedData codeCompare exampleData [] ''All'')) ! 13
     = [Str [], Str ''SUBTOTAL'', Str [], Obj None (Some 5)]"
proof -
  let ?G = "groupedData codeCompare exampleData [] ''All''"
  have names: "map g_name ?G = [''Beam - C30'', ''Wall Paint'', ''Asphalt'', ''Zinc Flashing'']"
    using example_output_order by blast
  then have "length (map g_name ?G) = 4" by simp
  then have j: "1 < length ?G" by simp
  have d: "distinct (map g_name ?G)"
    unfolding names by simp
  have "map g_name ?G ! 1 = ''Wall Paint''"
    unfolding names by simp
  with j have own: "g_name (?G ! 1) \<noteq> ''__proto__''" by simp
  note inst = subtotal_address_own_name [OF j own, where numStr = wholeStr and rebar = "[]"
      and unitPrices = Map.empty and data = exampleData, unfolded Let_def]
  from example_subtotal_index have idx: "subtotalIndex wholeStr ?G 1 = 13"
    and fourteen: "decimal 14 = ''14''" and total: "g_totalQuantity (?G ! 1) = 5"
    by blast+
  from inst d
  have "emitBoq (groupAddressMap (emitDimSheet wholeStr ?G)) ?G [] Map.empty ! Suc 1 ! 2
          = Obj (Some (sheetRef (subtotalIndex wholeStr ?G 1))) None"
    by blast
  then have boq: "emitBoq (groupAddressMap (emitDimSheet wholeStr ?G)) ?G [] Map.empty ! 2 ! 2
          = Obj (Some ([CHR 0x27] @ ''Dim Sheet'' @ [CHR 0x27] @ ''!D14'')) None"
    unfolding idx by (simp add: sheetRef_text fourteen numeral_2_eq_2)
  from inst have "dimRows (emitDimSheet wholeStr ?G) ! subtotalIndex wholeStr ?G 1
          = subtotalRow (?G ! 1)"
    by blast
  then have "dimRows (emitDimSheet wholeStr ?G) ! 13
          = [Str [], Str ''SUBTOTAL'', Str [], Obj None (Some 5)]"
    unfolding idx subtotalRow_def total by simp
  with boq show ?thesis by blast
qed

text \<open>
  C1 fails on the code. An item described as \<open>__proto__ - Grid A\<close> forms the group named
  \<open>__proto__\<close>. Its subtotal row is pushed at row 5 of the Dim Sheet, but the assignment
  \<^verbatim>\<open>groupAddressMap[group.name] = ...\<close> on the plain object records nothing: no address
  is held for the group when the BOQ emission begins, where C1 has the address of
  row 5, \<open>'Dim Sheet'!D6\<close>, recorded. The entry the BOQ emission consults for the group is
  the object the address map inherits under that name, and the quantity cell of the
  group's BOQ row has that object as its formula, with no reference to the subtotal cell.
  (No price being set, the rate cell of the row holds the object the unit prices inherit
  under that name.)
\<close>

theorem subtotal_address_not_recorded:
  "map g_name (groupedData codeCompare protoData [] ''All'') = [''__proto__'']
   \<and> subtotalIndex wholeStr (groupedData codeCompare protoData [] ''All'') 0 = 5
   \<and> dimRows (emitDimSheet wholeStr (groupedData codeCompare protoData [] ''All'')) ! 5
       = [Str [], Str ''SUBTOTAL'', Str [], Obj None (Some 4)]
   \<and> groupAddressMap (emitDimSheet wholeStr (groupedData codeCompare protoData [] ''All''))
       ''__proto__'' = None
   \<and> objGet (groupAddressMap
               (emitDimSheet wholeStr (groupedData codeCompare protoData [] ''All'')))
       ''__proto__'' = Some (Proto ''__proto__'')
   \<and> map_of (synthesizeWorkbook codeCompare wholeStr protoData [] ''All'' Map.empty)
       ''Bill of Quantities''
       = Some [boqHeader,
               [Str ''__proto__'', Str ''m2'', ObjProtoF ''__proto__'', ObjProtoV ''__proto__'',
                Obj (Some ''C2*D2'') None],
               [Str [], Str [], Str [], Str [], Str []],
               [Str ''GRAND TOTAL'', Str [], Str [], Str [],
                Obj (Some ''SUM(E2:E2)'') None]]"
  by code_simp

end
